theory Spec2Isabelle
  imports Complex_Main "HOL-Library.Sublist" "HOL-Library.Word"
begin

section \<open>JavaScript values\<close>

text \<open>
  The function under study, \<^verbatim>\<open>SCOPEGREEN\<close> of \<^verbatim>\<open>src/scopegreen.js\<close>, is dynamically
  typed: its nine arguments come from spreadsheet cells, and the body of the HTTP response
  is whatever \<^verbatim>\<open>JSON.parse\<close> makes of it. Values are therefore modelled by one datatype.

  A string is a list of 16-bit code units, so that it can hold a lone surrogate, on which
  \<^verbatim>\<open>encodeURIComponent\<close> throws. The text of a literal of the program is embedded by
  \<open>lit\<close>. A number is \<open>NaN\<close>, an infinity or a finite real (every finite double is one; the
  code only orders, compares and prints numbers; negative zero, which behaves like zero in
  all of this, is not told apart). The values are those that a parsed JSON text, or a cell
  holding text, a number or a boolean, can be; a cell holding a date is not modelled.
\<close>

type_synonym code_unit = "16 word"

type_synonym jstring = "code_unit list"

definition cu :: "char \<Rightarrow> code_unit" where
  "cu c = of_nat (of_char c)"

definition lit :: "string \<Rightarrow> jstring" where
  "lit s = map cu s"

datatype jsnum = NaN | NegInf | Fin real | PosInf

datatype jsval =
    JUndefined
  | JNull
  | JBool bool
  | JNum jsnum
  | JStr jstring
  | JArr "jsval list"
  | JObj "(jstring \<times> jsval) list"

text \<open>
  An exception is a \<^verbatim>\<open>TypeError\<close> of the engine, tagged with the property or method whose
  use raised it; the \<^verbatim>\<open>SyntaxError\<close> of \<^verbatim>\<open>JSON.parse\<close>, with its message; the
  \<^verbatim>\<open>URIError\<close> of \<^verbatim>\<open>encodeURIComponent\<close>; or an error thrown by a host service, given by
  the text that its \<^verbatim>\<open>toString()\<close> returns.
\<close>

datatype exn = TypeError string | SyntaxError jstring | URIError | HostError jstring

text \<open>
  Built-ins of the JavaScript runtime that the function calls and whose code is not part of
  the repository are parameters of the model: the JSON parser (\<open>Inl\<close> the message of the
  \<^verbatim>\<open>SyntaxError\<close> it throws), the JSON serializer, the printing of numbers other than
  integers below \<open>2^53\<close>, the conversion of a string to a number, lower-casing, and the
  message text of a \<^verbatim>\<open>TypeError\<close>.
\<close>

record runtime =
  JSON_parse :: "jstring \<Rightarrow> jstring + jsval"
  JSON_stringify :: "jsval \<Rightarrow> jstring"
  Number_toString :: "real \<Rightarrow> jstring"
  StringToNumber :: "jstring \<Rightarrow> jsnum"
  String_toLowerCase :: "jstring \<Rightarrow> jstring"
  TypeError_message :: "string \<Rightarrow> jstring"

text \<open>Sequencing of computations that may throw.\<close>

definition and_then :: "exn + 'a \<Rightarrow> ('a \<Rightarrow> exn + 'b) \<Rightarrow> exn + 'b" where
  "and_then m f = (case m of Inl e \<Rightarrow> Inl e | Inr x \<Rightarrow> f x)"

subsection \<open>Truthiness, property access, comparison\<close>

fun truthy :: "jsval \<Rightarrow> bool" where
  "truthy JUndefined = False"
| "truthy JNull = False"
| "truthy (JBool b) = b"
| "truthy (JNum NaN) = False"
| "truthy (JNum (Fin r)) = (r \<noteq> 0)"
| "truthy (JNum _) = True"
| "truthy (JStr s) = (s \<noteq> [])"
| "truthy (JArr _) = True"
| "truthy (JObj _) = True"

text \<open>\<^verbatim>\<open>a || b\<close>\<close>

definition js_or :: "jsval \<Rightarrow> jsval \<Rightarrow> jsval" where
  "js_or a b = (if truthy a then a else b)"

text \<open>
  \<^verbatim>\<open>v.name\<close> for the property names the function reads (none of them is inherited from a
  prototype, except \<^verbatim>\<open>length\<close> of arrays and strings): reading a property of
  \<^verbatim>\<open>undefined\<close> or \<^verbatim>\<open>null\<close> throws.
\<close>

fun get_prop :: "jsval \<Rightarrow> string \<Rightarrow> exn + jsval" where
  "get_prop JUndefined name = Inl (TypeError name)"
| "get_prop JNull name = Inl (TypeError name)"
| "get_prop (JObj kvs) name =
     Inr (case map_of kvs (lit name) of None \<Rightarrow> JUndefined | Some v \<Rightarrow> v)"
| "get_prop (JArr xs) name =
     Inr (if name = ''length'' then JNum (Fin (of_nat (length xs))) else JUndefined)"
| "get_prop (JStr s) name =
     Inr (if name = ''length'' then JNum (Fin (of_nat (length s))) else JUndefined)"
| "get_prop (JBool b) name = Inr JUndefined"
| "get_prop (JNum n) name = Inr JUndefined"

text \<open>The same read where the receiver is known not to be \<^verbatim>\<open>undefined\<close> or \<^verbatim>\<open>null\<close>
  (it was tested for truthiness just before).\<close>

definition prop_of :: "jsval \<Rightarrow> string \<Rightarrow> jsval" where
  "prop_of v name = (case get_prop v name of Inl e \<Rightarrow> JUndefined | Inr x \<Rightarrow> x)"

text \<open>\<^verbatim>\<open>a <= b\<close> and \<^verbatim>\<open>a > 0\<close> on numbers, and \<^verbatim>\<open>Math.min\<close> of two numbers.\<close>

fun js_le :: "jsnum \<Rightarrow> jsnum \<Rightarrow> bool" where
  "js_le NaN _ = False"
| "js_le _ NaN = False"
| "js_le NegInf _ = True"
| "js_le _ PosInf = True"
| "js_le (Fin a) (Fin b) = (a \<le> b)"
| "js_le (Fin a) NegInf = False"
| "js_le PosInf _ = False"

fun js_gt_zero :: "jsnum \<Rightarrow> bool" where
  "js_gt_zero (Fin r) = (0 < r)"
| "js_gt_zero PosInf = True"
| "js_gt_zero _ = False"

fun Math_min :: "jsnum \<Rightarrow> jsnum \<Rightarrow> jsnum" where
  "Math_min NaN _ = NaN"
| "Math_min _ NaN = NaN"
| "Math_min a b = (if js_le a b then a else b)"

subsection \<open>Conversion to string\<close>

text \<open>Decimal digits of a natural number, most significant first.\<close>

definition digit_char :: "nat \<Rightarrow> char" where
  "digit_char d = ''0123456789'' ! (d mod 10)"

fun show_nat :: "nat \<Rightarrow> string" where
  "show_nat n = (if n < 10 then [digit_char n] else show_nat (n div 10) @ [digit_char (n mod 10)])"

definition show_int :: "int \<Rightarrow> string" where
  "show_int k = (if k < 0 then CHR ''-'' # show_nat (nat (- k)) else show_nat (nat k))"

text \<open>
  \<^verbatim>\<open>Number.prototype.toString\<close>: an integer of magnitude below \<open>2^53\<close> prints as its
  decimal digits (up to there every integer is a double of its own, so the shortest digits
  that read back as the number are all of its digits); every other finite number is printed
  by the runtime.
\<close>

definition is_safe_int :: "real \<Rightarrow> bool" where
  "is_safe_int r = (r = of_int \<lfloor>r\<rfloor> \<and> \<bar>r\<bar> < 2 ^ 53)"

fun numToString :: "runtime \<Rightarrow> jsnum \<Rightarrow> jstring" where
  "numToString rt NaN = lit ''NaN''"
| "numToString rt PosInf = lit ''Infinity''"
| "numToString rt NegInf = lit ''-Infinity''"
| "numToString rt (Fin r) =
     (if is_safe_int r then lit (show_int \<lfloor>r\<rfloor>) else Number_toString rt r)"

text \<open>
  \<^verbatim>\<open>String(v)\<close>, as a template literal, string concatenation and \<^verbatim>\<open>v.toString()\<close>
  compute it for primitive values, arrays and plain objects. An array joins the strings of
  its elements with commas, \<^verbatim>\<open>null\<close> and \<^verbatim>\<open>undefined\<close> giving the empty string. A plain
  object prints as \<^verbatim>\<open>[object Object]\<close> through the method it inherits; when it has a
  property \<^verbatim>\<open>toString\<close> of its own, which is never callable in parsed JSON, the conversion
  throws a \<^verbatim>\<open>TypeError\<close>.
\<close>

fun toStringJS :: "runtime \<Rightarrow> jsval \<Rightarrow> exn + jstring"
  and join_comma :: "runtime \<Rightarrow> jsval list \<Rightarrow> exn + jstring"
  where
  "toStringJS rt JUndefined = Inr (lit ''undefined'')"
| "toStringJS rt JNull = Inr (lit ''null'')"
| "toStringJS rt (JBool b) = Inr (if b then lit ''true'' else lit ''false'')"
| "toStringJS rt (JNum n) = Inr (numToString rt n)"
| "toStringJS rt (JStr s) = Inr s"
| "toStringJS rt (JArr xs) = join_comma rt xs"
| "toStringJS rt (JObj kvs) =
     (if map_of kvs (lit ''toString'') = None then Inr (lit ''[object Object]'')
      else Inl (TypeError ''toString''))"
| "join_comma rt [] = Inr []"
| "join_comma rt (x # xs) =
     (case (if x = JUndefined \<or> x = JNull then Inr [] else toStringJS rt x) of
        Inl e \<Rightarrow> Inl e
      | Inr s \<Rightarrow>
          if xs = [] then Inr s
          else (case join_comma rt xs of
                  Inl e \<Rightarrow> Inl e
                | Inr t \<Rightarrow> Inr (s @ lit '','' @ t)))"

text \<open>\<^verbatim>\<open>ToNumber\<close>, the coercion behind \<^verbatim>\<open>></\<close> and \<^verbatim>\<open>Math.min\<close>; an array or object is
  converted to a string first.\<close>

fun toNumber :: "runtime \<Rightarrow> jsval \<Rightarrow> exn + jsnum" where
  "toNumber rt JUndefined = Inr NaN"
| "toNumber rt JNull = Inr (Fin 0)"
| "toNumber rt (JBool b) = Inr (Fin (if b then 1 else 0))"
| "toNumber rt (JNum n) = Inr n"
| "toNumber rt (JStr s) = Inr (StringToNumber rt s)"
| "toNumber rt v = and_then (toStringJS rt v) (\<lambda>s. Inr (StringToNumber rt s))"

text \<open>\<^verbatim>\<open>s.includes(t)\<close>: \<open>t\<close> occurs in \<open>s\<close> as a contiguous substring.\<close>

fun str_includes :: "'a list \<Rightarrow> 'a list \<Rightarrow> bool" where
  "str_includes [] t = (t = [])"
| "str_includes (c # s) t = (prefix t (c # s) \<or> str_includes s t)"

subsection \<open>String built-ins\<close>

text \<open>White space, as \<^verbatim>\<open>trim\<close> and \<^verbatim>\<open>parseInt\<close> skip it: the white space and line
  terminator code points of the language.\<close>

definition is_space :: "code_unit \<Rightarrow> bool" where
  "is_space c =
     (unat c \<in> {9, 10, 11, 12, 13, 32, 160, 5760, 8232, 8233, 8239, 8287, 12288, 65279}
      \<or> (8192 \<le> unat c \<and> unat c \<le> 8202))"

definition trim :: "jstring \<Rightarrow> jstring" where
  "trim s = rev (dropWhile is_space (rev (dropWhile is_space s)))"

text \<open>
  The Number value of an integer: itself below \<open>2^53\<close>; beyond, the nearest number with 53
  significant bits, the even one on a tie, and an infinity from \<open>2^1024\<close> on.
\<close>

fun bit_length :: "nat \<Rightarrow> nat" where
  "bit_length n = (if n = 0 then 0 else Suc (bit_length (n div 2)))"

definition to_double :: "int \<Rightarrow> jsnum" where
  "to_double k =
     (let m = nat \<bar>k\<bar>
      in if m < 2 ^ 53 then Fin (of_int k)
         else (let q = 2 ^ (bit_length m - 53);
                   lo = m div q;
                   rest = m mod q;
                   v = (if q < 2 * rest \<or> (2 * rest = q \<and> odd lo) then lo + 1 else lo) * q
               in if 2 ^ 1024 \<le> v then (if k < 0 then NegInf else PosInf)
                  else Fin (of_int (if k < 0 then - int v else int v))))"

text \<open>
  \<^verbatim>\<open>parseInt(v)\<close> with no radix: the argument is converted to a string, leading white
  space and one sign are skipped, a \<^verbatim>\<open>0x\<close> prefix selects radix 16, and the longest run
  of digits is read; no digit at all gives \<open>NaN\<close>. The result is the Number value of the
  integer read (V8 rounds the exact integer, whatever the number of its digits).
\<close>

definition digit_val :: "code_unit \<Rightarrow> nat option" where
  "digit_val c =
     (let n = unat c
      in if 48 \<le> n \<and> n \<le> 57 then Some (n - 48)
         else if 97 \<le> n \<and> n \<le> 102 then Some (n - 87)
         else if 65 \<le> n \<and> n \<le> 70 then Some (n - 55)
         else None)"

definition is_digit_in :: "nat \<Rightarrow> code_unit \<Rightarrow> bool" where
  "is_digit_in radix c = (case digit_val c of None \<Rightarrow> False | Some d \<Rightarrow> d < radix)"

definition digits_value :: "nat \<Rightarrow> jstring \<Rightarrow> nat" where
  "digits_value radix ds =
     foldl (\<lambda>acc c. acc * radix + (case digit_val c of None \<Rightarrow> 0 | Some d \<Rightarrow> d)) 0 ds"

definition parseInt_string :: "jstring \<Rightarrow> jsnum" where
  "parseInt_string inputString =
     (let S = dropWhile is_space inputString;
          negative = (case S of [] \<Rightarrow> False | c # _ \<Rightarrow> c = cu CHR ''-'');
          S1 = (case S of [] \<Rightarrow> []
                | c # cs \<Rightarrow> if c = cu CHR ''+'' \<or> c = cu CHR ''-'' then cs else S);
          hex = (prefix (lit ''0x'') S1 \<or> prefix (lit ''0X'') S1);
          R = (if hex then 16 else 10);
          Z = takeWhile (is_digit_in R) (if hex then drop 2 S1 else S1)
      in if Z = [] then NaN
         else to_double ((if negative then - 1 else 1) * int (digits_value R Z)))"

definition parseInt :: "runtime \<Rightarrow> jsval \<Rightarrow> exn + jsnum" where
  "parseInt rt v = and_then (toStringJS rt v) (\<lambda>s. Inr (parseInt_string s))"

text \<open>
  \<^verbatim>\<open>encodeURIComponent\<close>: letters, digits and \<^verbatim>\<open>- _ . ! ~ * ' ( )\<close> stay; every other
  code point is percent-encoded as the bytes of its UTF-8 form. A surrogate pair is one
  code point; a surrogate outside a pair throws \<^verbatim>\<open>URIError\<close>.
\<close>

definition hex_char :: "nat \<Rightarrow> char" where
  "hex_char d = ''0123456789ABCDEF'' ! (d mod 16)"

definition percent :: "nat \<Rightarrow> string" where
  "percent b = [CHR ''%'', hex_char (b div 16), hex_char (b mod 16)]"

definition utf8_percent :: "nat \<Rightarrow> string" where
  "utf8_percent n =
     (if n < 128 then percent n
      else if n < 2048 then percent (192 + n div 64) @ percent (128 + n mod 64)
      else if n < 65536
      then percent (224 + n div 4096) @ percent (128 + n div 64 mod 64)
             @ percent (128 + n mod 64)
      else percent (240 + n div 262144) @ percent (128 + n div 4096 mod 64)
             @ percent (128 + n div 64 mod 64) @ percent (128 + n mod 64))"

definition uri_unreserved :: "code_unit \<Rightarrow> bool" where
  "uri_unreserved c =
     (let n = unat c
      in (48 \<le> n \<and> n \<le> 57) \<or> (65 \<le> n \<and> n \<le> 90) \<or> (97 \<le> n \<and> n \<le> 122)
         \<or> n \<in> {45, 95, 46, 33, 126, 42, 39, 40, 41})"

definition is_high_surrogate :: "code_unit \<Rightarrow> bool" where
  "is_high_surrogate c = (55296 \<le> unat c \<and> unat c \<le> 56319)"

definition is_low_surrogate :: "code_unit \<Rightarrow> bool" where
  "is_low_surrogate c = (56320 \<le> unat c \<and> unat c \<le> 57343)"

definition pair_code_point :: "code_unit \<Rightarrow> code_unit \<Rightarrow> nat" where
  "pair_code_point hi lo = 65536 + (unat hi - 55296) * 1024 + (unat lo - 56320)"

text \<open>A prefix put before the encoding of the rest, when that did not throw.\<close>

definition encoded_before :: "jstring \<Rightarrow> exn + jstring \<Rightarrow> exn + jstring" where
  "encoded_before s r = (case r of Inl e \<Rightarrow> Inl e | Inr t \<Rightarrow> Inr (s @ t))"

fun encodeURIComponent :: "jstring \<Rightarrow> exn + jstring" where
  "encodeURIComponent [] = Inr []"
| "encodeURIComponent (c # cs) =
     (if uri_unreserved c then encoded_before [c] (encodeURIComponent cs)
      else if \<not> is_high_surrogate c \<and> \<not> is_low_surrogate c
      then encoded_before (lit (utf8_percent (unat c))) (encodeURIComponent cs)
      else if is_high_surrogate c
      then (case cs of
              [] \<Rightarrow> Inl URIError
            | d # ds \<Rightarrow>
                if is_low_surrogate d
                then encoded_before (lit (utf8_percent (pair_code_point c d)))
                       (encodeURIComponent ds)
                else Inl URIError)
      else Inl URIError)"

section \<open>Parameters, cache key and query string\<close>

text \<open>The nine arguments as the caller passes them, and after lines 30 to 38.\<close>

record raw_args =
  raw_itemName :: jsval
  raw_year :: jsval
  raw_geography :: jsval
  raw_metric :: jsval
  raw_domain :: jsval
  raw_numMatches :: jsval
  raw_mode :: jsval
  raw_notEnglish :: jsval
  raw_unit :: jsval

record params =
  itemName :: jstring
  year :: jstring
  geography :: jstring
  metric :: jstring
  domain :: jstring
  numMatches :: jsnum
  mode :: jstring
  notEnglish :: bool
  unit :: jstring

text \<open>
  Lines 19 to 27: each log line concatenates an argument to a string, which converts it;
  only the exception that a conversion may throw matters here.
\<close>

fun first_thrown :: "(exn + 'a) list \<Rightarrow> exn option" where
  "first_thrown [] = None"
| "first_thrown (Inl e # rs) = Some e"
| "first_thrown (Inr x # rs) = first_thrown rs"

definition log_parameters :: "runtime \<Rightarrow> raw_args \<Rightarrow> exn option" where
  "log_parameters rt a =
     first_thrown (map (toStringJS rt)
       [raw_itemName a, raw_year a, raw_geography a, raw_metric a, raw_domain a,
        raw_numMatches a, raw_mode a, raw_notEnglish a, raw_unit a])"

text \<open>\<^verbatim>\<open>v ? v.toString().trim() : dflt\<close>\<close>

definition prepare_text :: "runtime \<Rightarrow> jsval \<Rightarrow> jstring \<Rightarrow> exn + jstring" where
  "prepare_text rt v dflt =
     (if truthy v then and_then (toStringJS rt v) (\<lambda>s. Inr (trim s)) else Inr dflt)"

text \<open>Lines 19 to 38, which are outside the \<^verbatim>\<open>try\<close> block: an exception here leaves the
  function.\<close>

definition prepare :: "runtime \<Rightarrow> raw_args \<Rightarrow> exn + params" where
  "prepare rt a =
     (case log_parameters rt a of
        Some e \<Rightarrow> Inl e
      | None \<Rightarrow>
     and_then (prepare_text rt (raw_itemName a) []) (\<lambda>i.
     and_then (prepare_text rt (raw_year a) []) (\<lambda>y.
     and_then (prepare_text rt (raw_geography a) []) (\<lambda>g.
     and_then (prepare_text rt (raw_metric a) (lit ''Carbon footprint'')) (\<lambda>m.
     and_then (prepare_text rt (raw_domain a) []) (\<lambda>d.
     and_then (if truthy (raw_numMatches a) then parseInt rt (raw_numMatches a)
               else Inr (Fin 1)) (\<lambda>n.
     and_then (if truthy (raw_mode a)
               then and_then (toStringJS rt (raw_mode a))
                      (\<lambda>s. Inr (String_toLowerCase rt (trim s)))
               else Inr (lit ''lite'')) (\<lambda>mo.
     and_then (prepare_text rt (raw_unit a) []) (\<lambda>u.
       Inr \<lparr> itemName = i, year = y, geography = g, metric = m, domain = d,
             numMatches = n, mode = mo,
             notEnglish = (raw_notEnglish a = JBool True
                           \<or> raw_notEnglish a = JStr (lit ''true'')),
             unit = u \<rparr>)))))))))"

text \<open>Line 41.\<close>

definition cacheKey :: "runtime \<Rightarrow> params \<Rightarrow> jstring" where
  "cacheKey rt p =
     lit ''LCA_'' @ itemName p @ lit ''_'' @ year p @ lit ''_'' @ geography p @ lit ''_''
       @ metric p @ lit ''_'' @ domain p @ lit ''_'' @ numToString rt (numMatches p)
       @ lit ''_'' @ mode p @ lit ''_'' @ lit (if notEnglish p then ''true'' else ''false'')
       @ lit ''_'' @ unit p"

text \<open>Lines 61 to 72, also outside the \<^verbatim>\<open>try\<close> block: one segment per statement, in
  the order of the source.\<close>

definition query_segment :: "bool \<Rightarrow> string \<Rightarrow> jstring \<Rightarrow> exn + jstring" where
  "query_segment present name v =
     (if present
      then and_then (encodeURIComponent v) (\<lambda>e. Inr (lit ''&'' @ lit name @ lit ''='' @ e))
      else Inr [])"

definition queryParams :: "runtime \<Rightarrow> params \<Rightarrow> exn + jstring" where
  "queryParams rt p =
     and_then (encodeURIComponent (itemName p)) (\<lambda>s0.
     and_then (query_segment (year p \<noteq> []) ''year'' (year p)) (\<lambda>s1.
     and_then (query_segment (geography p \<noteq> []) ''geography'' (geography p)) (\<lambda>s2.
     and_then (query_segment (metric p \<noteq> []) ''metric'' (metric p)) (\<lambda>s3.
     and_then (query_segment (mode p \<noteq> []) ''mode'' (mode p)) (\<lambda>s4.
     and_then (query_segment (truthy (JNum (numMatches p))) ''num_matches''
                 (numToString rt (numMatches p))) (\<lambda>s5.
     and_then (query_segment (domain p \<noteq> []) ''domain'' (domain p)) (\<lambda>s6.
     and_then (query_segment True ''not_english''
                 (lit (if notEnglish p then ''true'' else ''false''))) (\<lambda>s7.
     and_then (query_segment (unit p \<noteq> []) ''unit'' (unit p)) (\<lambda>s8.
       Inr (lit ''item_name='' @ s0 @ s1 @ s2 @ s3 @ s4 @ lit ''&web_mode=false''
              @ s5 @ s6 @ s7 @ s8))))))))))"

definition API_BASE_URL :: string where
  "API_BASE_URL = ''https://scopegreen-main-1a948ab.d2.zuplo.dev/api/metrics/search''"

definition fullUrl :: "runtime \<Rightarrow> params \<Rightarrow> exn + jstring" where
  "fullUrl rt p = and_then (queryParams rt p) (\<lambda>q. Inr (lit API_BASE_URL @ lit ''?'' @ q))"

section \<open>External services\<close>

text \<open>
  The cache service and the HTTP client are outside the repository. The cache is a store
  from keys to the text and time-to-live last put there (what \<^verbatim>\<open>get\<close> would still
  return); every call of \<^verbatim>\<open>UrlFetchApp.fetch\<close> and of \<^verbatim>\<open>cache.put\<close> is recorded in a
  trace. The environment decides what a fetch returns, a response or a thrown error, and
  which puts the service rejects by throwing. \<^verbatim>\<open>cache.get\<close> and the calls of
  \<^verbatim>\<open>Logger.log\<close> are taken to return.
\<close>

datatype event = Fetch jstring | Put jstring jstring nat

record world =
  store :: "jstring \<rightharpoonup> jstring \<times> nat"
  trace :: "event list"

record services =
  fetch :: "jstring \<Rightarrow> exn + int \<times> jstring"
  put_rejected :: "jstring \<Rightarrow> jstring \<Rightarrow> bool"

definition cache_get :: "world \<Rightarrow> jstring \<Rightarrow> jstring option" where
  "cache_get w k = map_option fst (store w k)"

text \<open>Lines 179 to 183: the put, with its exception caught and only logged.\<close>

definition cache_put :: "services \<Rightarrow> world \<Rightarrow> jstring \<Rightarrow> jstring \<Rightarrow> nat \<Rightarrow> world" where
  "cache_put sv w k body ttl =
     (if put_rejected sv k body then w\<lparr>trace := trace w @ [Put k body ttl]\<rparr>
      else w\<lparr>store := (store w)(k \<mapsto> (body, ttl)), trace := trace w @ [Put k body ttl]\<rparr>)"

section \<open>Classifying the response and formatting the row\<close>

text \<open>Each \<^verbatim>\<open>return\<close> of the source is tagged with the outcome it stands for.\<close>

datatype outcome =
    RateLimited | Malformed | ApiError | NoMatch | Success | UnexpectedShape
  | Timeout | GenericFailure

text \<open>\<^verbatim>\<open>[[cell]]\<close>\<close>

definition table1 :: "jsval \<Rightarrow> jsval" where
  "table1 cell = JArr [JArr [cell]]"

text \<open>
  Lines 99 to 110, entered when the status code is 429. \<open>Some\<close> is a \<^verbatim>\<open>return\<close>;
  \<open>None\<close> means that the block ends without one and control reaches line 112. The
  \<^verbatim>\<open>catch\<close> of line 106 answers every exception of the \<^verbatim>\<open>try\<close>: the parse error, the
  \<^verbatim>\<open>TypeError\<close> from \<^verbatim>\<open>errorData.error\<close> on \<^verbatim>\<open>null\<close>, and the one from converting the
  message to a string.
\<close>

definition rate_limit_block :: "runtime \<Rightarrow> jstring \<Rightarrow> jsval option" where
  "rate_limit_block rt responseText =
     (case JSON_parse rt responseText of
        Inl m \<Rightarrow> Some (table1 (JStr (lit ''Rate limit exceeded: Please try again later.'')))
      | Inr errorData \<Rightarrow>
          (case get_prop errorData ''error'' of
             Inl e \<Rightarrow> Some (table1 (JStr (lit ''Rate limit exceeded: Please try again later.'')))
           | Inr err \<Rightarrow>
               if truthy err \<and> truthy (prop_of err ''message'')
               then (case toStringJS rt (prop_of err ''message'') of
                       Inl e \<Rightarrow>
                         Some (table1 (JStr (lit ''Rate limit exceeded: Please try again later.'')))
                     | Inr s \<Rightarrow> Some (table1 (JStr (lit ''Rate limit exceeded: '' @ s))))
               else None))"

text \<open>\<^verbatim>\<open>data.matches.find(m => m.rank === i)\<close> on an array: the first element whose
  \<^verbatim>\<open>rank\<close> is the number \<open>i\<close>, or \<^verbatim>\<open>undefined\<close>; reading \<^verbatim>\<open>rank\<close> of a \<^verbatim>\<open>null\<close>
  element throws.\<close>

fun find_rank :: "jsval list \<Rightarrow> nat \<Rightarrow> exn + jsval" where
  "find_rank [] i = Inr JUndefined"
| "find_rank (m # ms) i =
     (case get_prop m ''rank'' of
        Inl e \<Rightarrow> Inl e
      | Inr r \<Rightarrow> if r = JNum (Fin (of_nat i)) then Inr m else find_rank ms i)"

text \<open>Lines 144 to 167: the eight cells of one match. The concatenation of line 144
  converts the name and may throw; \<^verbatim>\<open>match.metric.value\<close> throws when the match has no
  \<^verbatim>\<open>metric\<close>.\<close>

definition match_cells :: "runtime \<Rightarrow> nat \<Rightarrow> jsval \<Rightarrow> exn + jsval list" where
  "match_cells rt i match =
     and_then (toStringJS rt (prop_of match ''matched_name'')) (\<lambda>name.
     and_then (get_prop (prop_of match ''metric'') ''value'') (\<lambda>v.
     and_then (get_prop (prop_of match ''metric'') ''unit'') (\<lambda>u.
       Inr [JStr (lit ''Match '' @ lit (show_nat i) @ lit '': '' @ name),
            v,
            u,
            js_or (prop_of match ''year'') (JStr []),
            js_or (prop_of match ''geography'') (JStr []),
            js_or (prop_of match ''source'') (JStr []),
            js_or (prop_of match ''source_link'') (JStr []),
            js_or (prop_of match ''conversion_info'') (JStr [])])))"

text \<open>The bound of the loop of line 139, evaluated at every test of its condition.\<close>

definition loop_bound :: "runtime \<Rightarrow> jsnum \<Rightarrow> jsval \<Rightarrow> exn + jsnum" where
  "loop_bound rt n matches =
     and_then (toNumber rt (prop_of matches ''length'')) (\<lambda>len. Inr (Math_min n len))"

lemma loop_bound_array:
  "loop_bound rt n (JArr ms) = Inr b \<Longrightarrow> js_le (Fin (of_nat i)) b \<Longrightarrow> i \<le> length ms"
  by (cases n) (auto simp: loop_bound_def prop_of_def and_then_def split: if_splits)

text \<open>
  Lines 139 to 169, from counter \<open>i\<close> on, with the cells pushed so far. Only an array has a
  \<^verbatim>\<open>find\<close> method: on any other value the call throws.
\<close>

function format_loop :: "runtime \<Rightarrow> jsnum \<Rightarrow> jsval \<Rightarrow> nat \<Rightarrow> jsval list \<Rightarrow> exn + jsval list"
  where
  "format_loop rt n matches i result =
     (case loop_bound rt n matches of
        Inl e \<Rightarrow> Inl e
      | Inr bound \<Rightarrow>
          if js_le (Fin (of_nat i)) bound
          then (case matches of
                  JArr ms \<Rightarrow>
                    (case find_rank ms i of
                       Inl e \<Rightarrow> Inl e
                     | Inr match \<Rightarrow>
                         if truthy match
                         then (case match_cells rt i match of
                                 Inl e \<Rightarrow> Inl e
                               | Inr cells \<Rightarrow>
                                   format_loop rt n matches (Suc i) (result @ cells))
                         else format_loop rt n matches (Suc i) result)
                | _ \<Rightarrow> Inl (TypeError ''find''))
          else Inr result)"
  by pat_completeness auto
termination
  by (relation "measure (\<lambda>(rt, n, matches, i, result).
        (case matches of JArr ms \<Rightarrow> Suc (length ms) - i | _ \<Rightarrow> 0))")
     (auto dest: loop_bound_array)

text \<open>Lines 129 and 130: \<^verbatim>\<open>data.message\<close> is a non-empty string that contains the phrase.\<close>

definition is_no_match :: "jsval \<Rightarrow> bool" where
  "is_no_match message =
     (case message of
        JStr s \<Rightarrow> s \<noteq> [] \<and> str_includes s (lit ''No good match was found'')
      | _ \<Rightarrow> False)"

text \<open>
  Lines 135 to 186, entered when \<^verbatim>\<open>data.matches\<close> is truthy and its length is above
  zero: the formatted row, the put, and the table returned.
\<close>

definition matches_branch ::
  "runtime \<Rightarrow> services \<Rightarrow> world \<Rightarrow> jstring \<Rightarrow> jsnum \<Rightarrow> jsval
     \<Rightarrow> (exn + outcome \<times> jsval) \<times> world" where
  "matches_branch rt sv w key n data =
     (case format_loop rt n (prop_of data ''matches'') 1 [] of
        Inl e \<Rightarrow> (Inl e, w)
      | Inr cells \<Rightarrow>
          (let result = cells @ [if truthy (prop_of data ''explanation'')
                                 then prop_of data ''explanation'' else JStr []]
           in (Inr (Success, JArr [JArr result]),
               cache_put sv w key (JSON_stringify rt (JArr [JArr result])) 120)))"

text \<open>
  Lines 123 to 197, for the parsed body \<open>data\<close>. The result is the exception that leaves
  the block, or the tagged value returned; only the branch of the matches touches the
  world, by its put.
\<close>

definition handle_data ::
  "runtime \<Rightarrow> services \<Rightarrow> world \<Rightarrow> jstring \<Rightarrow> jsnum \<Rightarrow> jstring \<Rightarrow> jsval
     \<Rightarrow> (exn + outcome \<times> jsval) \<times> world" where
  "handle_data rt sv w key n responseText data =
     (case get_prop data ''error'' of
        Inl e \<Rightarrow> (Inl e, w)
      | Inr err \<Rightarrow>
          if truthy err
          then (and_then (toStringJS rt (prop_of err ''code'')) (\<lambda>code.
                and_then (toStringJS rt (prop_of err ''message'')) (\<lambda>message.
                  Inr (ApiError, table1 (JStr (code @ lit '': '' @ message))))), w)
          else if is_no_match (prop_of data ''message'')
          then (Inr (NoMatch, table1 (prop_of data ''message'')), w)
          else
            (case (if truthy (prop_of data ''matches'')
                   then and_then (toNumber rt (prop_of (prop_of data ''matches'') ''length''))
                          (\<lambda>len. Inr (js_gt_zero len))
                   else Inr False) of
               Inl e \<Rightarrow> (Inl e, w)
             | Inr True \<Rightarrow> matches_branch rt sv w key n data
             | Inr False \<Rightarrow>
                 if truthy (prop_of data ''message'')
                 then (and_then (toStringJS rt (prop_of data ''message'')) (\<lambda>message.
                         Inr (UnexpectedShape,
                              table1 (JStr (lit ''Message from API: '' @ message)))), w)
                 else (Inr (UnexpectedShape, table1 (JStr responseText)), w)))"

text \<open>
  Lines 98 to 197, for a response that arrived. The body is parsed again at line 115;
  \<^verbatim>\<open>Object.keys(data)\<close> inside the same \<^verbatim>\<open>try\<close> throws on \<^verbatim>\<open>null\<close>, which the
  \<^verbatim>\<open>catch\<close> of line 118 answers like a parse error.
\<close>

definition process_response ::
  "runtime \<Rightarrow> services \<Rightarrow> world \<Rightarrow> jstring \<Rightarrow> jsnum \<Rightarrow> int \<Rightarrow> jstring
     \<Rightarrow> (exn + outcome \<times> jsval) \<times> world" where
  "process_response rt sv w key n responseCode responseText =
     (case (if responseCode = 429 then rate_limit_block rt responseText else None) of
        Some r \<Rightarrow> (Inr (RateLimited, r), w)
      | None \<Rightarrow>
          (case JSON_parse rt responseText of
             Inl m \<Rightarrow> (Inr (Malformed, table1 (JStr responseText)), w)
           | Inr data \<Rightarrow>
               if data = JUndefined \<or> data = JNull
               then (Inr (Malformed, table1 (JStr responseText)), w)
               else handle_data rt sv w key n responseText data))"

text \<open>Lines 88 to 197: the \<^verbatim>\<open>try\<close> block, from the fetch on, for the URL built before.\<close>

definition try_block ::
  "runtime \<Rightarrow> services \<Rightarrow> world \<Rightarrow> jstring \<Rightarrow> jsnum \<Rightarrow> jstring
     \<Rightarrow> (exn + outcome \<times> jsval) \<times> world" where
  "try_block rt sv w key n url =
     (let w1 = w\<lparr>trace := trace w @ [Fetch url]\<rparr>
      in case fetch sv url of
           Inl e \<Rightarrow> (Inl e, w1)
         | Inr (responseCode, responseText) \<Rightarrow>
             process_response rt sv w1 key n responseCode responseText)"

text \<open>\<^verbatim>\<open>error.toString()\<close>\<close>

fun error_toString :: "runtime \<Rightarrow> exn \<Rightarrow> jstring" where
  "error_toString rt (TypeError site) = lit ''TypeError: '' @ TypeError_message rt site"
| "error_toString rt (SyntaxError message) = lit ''SyntaxError: '' @ message"
| "error_toString rt URIError = lit ''URIError: URI malformed''"
| "error_toString rt (HostError description) = description"

text \<open>The exceptions that the language itself raises for a wrong operand.\<close>

definition is_TypeError :: "exn \<Rightarrow> bool" where
  "is_TypeError e = (case e of TypeError site \<Rightarrow> True | _ \<Rightarrow> False)"

text \<open>Lines 198 to 206: the \<^verbatim>\<open>catch\<close> block.\<close>

definition catch_block :: "runtime \<Rightarrow> exn \<Rightarrow> outcome \<times> jsval" where
  "catch_block rt error =
     (if str_includes (error_toString rt error) (lit ''timeout'')
         \<or> str_includes (error_toString rt error) (lit ''execution time'')
      then (Timeout,
            table1 (JStr (lit ''Error: API request timed out. Try simplifying your query.'')))
      else (GenericFailure, table1 (JStr (lit ''Error: '' @ error_toString rt error))))"

text \<open>Lines 88 to 206: the \<^verbatim>\<open>try\<close> statement. It always returns.\<close>

definition network_path ::
  "runtime \<Rightarrow> services \<Rightarrow> world \<Rightarrow> jstring \<Rightarrow> jsnum \<Rightarrow> jstring
     \<Rightarrow> (outcome \<times> jsval) \<times> world" where
  "network_path rt sv w key n url =
     (case try_block rt sv w key n url of
        (Inr r, w') \<Rightarrow> (r, w')
      | (Inl error, w') \<Rightarrow> (catch_block rt error, w'))"

section \<open>The function\<close>

text \<open>
  Lines 44 to 54: \<open>Some v\<close> when the function returns the parsed cache entry \<open>v\<close>, \<open>None\<close>
  when it goes on to the network. A cached text is used when it is truthy (not empty) and
  parses; the parse error is caught at line 50.
\<close>

definition cache_check :: "runtime \<Rightarrow> world \<Rightarrow> jstring \<Rightarrow> jsval option" where
  "cache_check rt w key =
     (case cache_get w key of
        None \<Rightarrow> None
      | Some cachedResult \<Rightarrow>
          if cachedResult \<noteq> []
          then (case JSON_parse rt cachedResult of Inl m \<Rightarrow> None | Inr v \<Rightarrow> Some v)
          else None)"

text \<open>
  Lines 56 to 206, reached when the cache gave nothing: the query string is built outside
  the \<^verbatim>\<open>try\<close> block, so the \<^verbatim>\<open>URIError\<close> of \<^verbatim>\<open>encodeURIComponent\<close> leaves the function
  before any request is made.
\<close>

definition after_miss ::
  "runtime \<Rightarrow> services \<Rightarrow> world \<Rightarrow> jstring \<Rightarrow> params \<Rightarrow> (exn + jsval) \<times> world" where
  "after_miss rt sv w key p =
     (case fullUrl rt p of
        Inl e \<Rightarrow> (Inl e, w)
      | Inr url \<Rightarrow>
          (case network_path rt sv w key (numMatches p) url of ((out, v), w') \<Rightarrow> (Inr v, w')))"

text \<open>
  \<^verbatim>\<open>SCOPEGREEN\<close>, lines 16 to 207: the value returned, or the exception that leaves the
  function, and the world after the call.
\<close>

definition SCOPEGREEN ::
  "runtime \<Rightarrow> services \<Rightarrow> raw_args \<Rightarrow> world \<Rightarrow> (exn + jsval) \<times> world" where
  "SCOPEGREEN rt sv a w =
     (case prepare rt a of
        Inl e \<Rightarrow> (Inl e, w)
      | Inr p \<Rightarrow>
          (case cache_check rt w (cacheKey rt p) of
             Some v \<Rightarrow> (Inr v, w)
           | None \<Rightarrow> after_miss rt sv w (cacheKey rt p) p))"

section \<open>Sample runtime, services and inputs\<close>

text \<open>
  Concrete inputs for the examples below: response bodies with the values that
  \<^verbatim>\<open>JSON.parse\<close> gives for them, and a runtime whose parser and serializer are tables of
  exactly these texts. Every other text does not parse, with the message that V8 gives for
  a short text. Of the numbers that the runtime prints, the examples use 2.5 and 1.9 only;
  the sample runtime prints an integer from \<open>2^53\<close> on with all its digits (V8 prints the
  shortest digits that read back as the number), so that it prints different integers
  differently, as V8 does. It reads digit strings as numbers and lower-cases the letters A
  to Z. The HTTP client answers
  every request with a fixed response, or throws; a call passes \<^verbatim>\<open>itemName\<close> and
  \<^verbatim>\<open>numMatches\<close> only.
\<close>

definition body_rate_limit :: string where
  \<open>body_rate_limit = ''{"error":{"message":"slow down"}}''\<close>

definition body_error_text :: string where
  \<open>body_error_text = ''{"error":"Too Many Requests"}''\<close>

definition body_ranks_1_2 :: string where
  \<open>body_ranks_1_2 = ''{"matches":[{"rank":1,"matched_name":"steel","metric":{"value":2.5,"unit":"kg CO2e/kg"},"year":2020},{"rank":2,"matched_name":"iron","metric":{"value":1.9,"unit":"kg CO2e/kg"}}],"explanation":"closest"}''\<close>

definition match_steel :: jsval where
  "match_steel =
     JObj [(lit ''rank'', JNum (Fin 1)), (lit ''matched_name'', JStr (lit ''steel'')),
           (lit ''metric'', JObj [(lit ''value'', JNum (Fin (5 / 2))),
                                 (lit ''unit'', JStr (lit ''kg CO2e/kg''))]),
           (lit ''year'', JNum (Fin 2020))]"

definition match_iron :: "nat \<Rightarrow> jsval" where
  "match_iron k =
     JObj [(lit ''rank'', JNum (Fin (of_nat k))), (lit ''matched_name'', JStr (lit ''iron'')),
           (lit ''metric'', JObj [(lit ''value'', JNum (Fin (19 / 10))),
                                 (lit ''unit'', JStr (lit ''kg CO2e/kg''))])]"

definition data_ranks_1_2 :: jsval where
  "data_ranks_1_2 =
     JObj [(lit ''matches'', JArr [match_steel, match_iron 2]),
           (lit ''explanation'', JStr (lit ''closest''))]"

definition body_ranks_1_3 :: string where
  \<open>body_ranks_1_3 = ''{"matches":[{"rank":1,"matched_name":"steel","metric":{"value":2.5,"unit":"kg CO2e/kg"},"year":2020},{"rank":3,"matched_name":"iron","metric":{"value":1.9,"unit":"kg CO2e/kg"}}],"explanation":"closest"}''\<close>

definition data_ranks_1_3 :: jsval where
  "data_ranks_1_3 =
     JObj [(lit ''matches'', JArr [match_steel, match_iron 3]),
           (lit ''explanation'', JStr (lit ''closest''))]"

definition row_text :: string where
  \<open>row_text = ''[["Match 1: steel",2.5,"kg CO2e/kg",2020,"","","","","Match 2: iron",1.9,"kg CO2e/kg","","","","","","closest"]]''\<close>

definition row_table :: jsval where
  "row_table =
     JArr [JArr [JStr (lit ''Match 1: steel''), JNum (Fin (5 / 2)), JStr (lit ''kg CO2e/kg''),
                 JNum (Fin 2020), JStr [], JStr [], JStr [], JStr [],
                 JStr (lit ''Match 2: iron''), JNum (Fin (19 / 10)), JStr (lit ''kg CO2e/kg''),
                 JStr [], JStr [], JStr [], JStr [], JStr [],
                 JStr (lit ''closest'')]]"

definition sample_texts :: "(jstring \<times> jsval) list" where
  "sample_texts =
     [(lit ''{}'', JObj []),
      (lit ''null'', JNull),
      (lit body_rate_limit,
         JObj [(lit ''error'', JObj [(lit ''message'', JStr (lit ''slow down''))])]),
      (lit body_error_text, JObj [(lit ''error'', JStr (lit ''Too Many Requests''))]),
      (lit body_ranks_1_2, data_ranks_1_2),
      (lit body_ranks_1_3, data_ranks_1_3),
      (lit row_text, row_table)]"

definition sample_parse :: "jstring \<Rightarrow> jstring + jsval" where
  "sample_parse s =
     (case map_of sample_texts s of
        Some v \<Rightarrow> Inr v
      | None \<Rightarrow>
          (case s of
             [] \<Rightarrow> Inl (lit ''Unexpected end of JSON input'')
           | c # cs \<Rightarrow>
               Inl (lit ''Unexpected token '' @ [39, c, 39] @ lit '', '' @ [34] @ s @ [34]
                    @ lit '' is not valid JSON'')))"

definition sample_rt :: runtime where
  "sample_rt =
     \<lparr> JSON_parse = sample_parse,
       JSON_stringify = (\<lambda>v. case find (\<lambda>(t, u). u = v) sample_texts of
                                 None \<Rightarrow> lit ''null'' | Some (t, u) \<Rightarrow> t),
       Number_toString = (\<lambda>r. case map_of [(5 / 2, ''2.5''), (19 / 10, ''1.9'')] r of
                                  None \<Rightarrow> lit (show_int \<lfloor>r\<rfloor>) | Some t \<Rightarrow> lit t),
       StringToNumber = (\<lambda>s. if s = [] then Fin 0
                              else if takeWhile (is_digit_in 10) s = s then parseInt_string s
                              else NaN),
       String_toLowerCase = map (\<lambda>c. if 65 \<le> unat c \<and> unat c \<le> 90 then c + 32 else c),
       TypeError_message =
         (\<lambda>site. lit ''Cannot read properties of undefined (reading '' @ lit site @ lit '')'') \<rparr>"

definition responding :: "int \<Rightarrow> jstring \<Rightarrow> services" where
  "responding code body = \<lparr> fetch = (\<lambda>url. Inr (code, body)), put_rejected = (\<lambda>k t. False) \<rparr>"

definition timing_out :: services where
  "timing_out = \<lparr> fetch = (\<lambda>url. Inl (HostError (lit ''Exception: Request timeout''))),
                   put_rejected = (\<lambda>k t. False) \<rparr>"

definition only_item :: "jstring \<Rightarrow> jsval \<Rightarrow> raw_args" where
  "only_item s n = \<lparr> raw_itemName = JStr s, raw_year = JUndefined, raw_geography = JUndefined,
     raw_metric = JUndefined, raw_domain = JUndefined, raw_numMatches = n,
     raw_mode = JUndefined, raw_notEnglish = JUndefined, raw_unit = JUndefined \<rparr>"

definition sample_params :: "jsnum \<Rightarrow> params" where
  "sample_params n =
     \<lparr> itemName = lit ''steel'', year = [], geography = [], metric = lit ''Carbon footprint'',
       domain = [], numMatches = n, mode = lit ''lite'', notEnglish = False, unit = [] \<rparr>"

definition empty_world :: world where
  "empty_world = \<lparr> store = Map.empty, trace = [] \<rparr>"

definition cached_world :: "jstring \<Rightarrow> jstring \<Rightarrow> world" where
  "cached_world k body = \<lparr> store = [k \<mapsto> (body, 120)], trace = [] \<rparr>"

declare format_loop.simps [simp del]
declare show_nat.simps [simp del]
declare bit_length.simps [simp del]

section \<open>General facts\<close>

subsection \<open>Literals and sequencing\<close>

lemma and_then_Inl [simp]: "and_then (Inl e) f = Inl e"
  by (simp add: and_then_def)

lemma and_then_Inr [simp]: "and_then (Inr x) f = f x"
  by (simp add: and_then_def)

lemma and_then_eq_Inr:
  "and_then m f = Inr y \<longleftrightarrow> (\<exists>x. m = Inr x \<and> f x = Inr y)"
  by (cases m) simp_all

lemma lit_Nil [simp]: "lit [] = []"
  by (simp add: lit_def)

lemma lit_Cons: "lit (c # s) = cu c # lit s"
  by (simp add: lit_def)

lemma lit_append: "lit (s @ t) = lit s @ lit t"
  by (simp add: lit_def)

lemma of_char_less: "(of_char c :: nat) < 256"
proof -
  have "(of_char c :: nat) mod 256 = of_char c" by simp
  then show ?thesis
    by (metis mod_less_divisor zero_less_numeral)
qed

lemma unat_cu: "unat (cu c) = of_char c"
proof -
  have "(of_char c :: nat) < 65536"
    using of_char_less [of c] by linarith
  then have "(of_char c :: nat) mod 65536 = of_char c"
    by (rule mod_less)
  then show ?thesis
    unfolding cu_def by (simp only: unat_of_nat) simp
qed

lemma cu_eq_iff [simp]: "cu a = cu b \<longleftrightarrow> a = b"
proof
  assume "cu a = cu b"
  then have "unat (cu a) = unat (cu b)" by simp
  then show "a = b" by (simp add: unat_cu)
qed simp

lemma lit_eq_iff [simp]: "lit s = lit t \<longleftrightarrow> s = t"
  by (simp add: lit_def inj_map_eq_map inj_on_def)

lemma set_lit: "set (lit s) = cu ` set s"
  by (simp add: lit_def)

lemma cu_in_set_lit [simp]: "cu c \<in> set (lit s) \<longleftrightarrow> c \<in> set s"
  by (auto simp: set_lit)

lemmas sample_defs = sample_rt_def sample_parse_def sample_texts_def body_rate_limit_def
  body_error_text_def body_ranks_1_2_def body_ranks_1_3_def data_ranks_1_2_def
  data_ranks_1_3_def row_text_def row_table_def match_steel_def match_iron_def responding_def
  timing_out_def only_item_def empty_world_def cached_world_def

lemmas run_defs = process_response_def handle_data_def matches_branch_def prop_of_def
  is_no_match_def format_loop.simps loop_bound_def match_cells_def js_or_def show_nat.simps
  digit_char_def table1_def rate_limit_block_def cache_put_def lit_def cu_def

subsection \<open>The pipeline\<close>

lemma str_includes_iff: "str_includes s t \<longleftrightarrow> (\<exists>a b. s = a @ t @ b)"
proof (induction s)
  case Nil
  then show ?case by auto
next
  case (Cons c s)
  show ?case
  proof
    assume "str_includes (c # s) t"
    then consider "prefix t (c # s)" | "str_includes s t" by auto
    then show "\<exists>a b. c # s = a @ t @ b"
    proof cases
      case 1
      then obtain b where "c # s = t @ b" by (auto simp: prefix_def)
      then have "c # s = [] @ t @ b" by simp
      then show ?thesis by blast
    next
      case 2
      with Cons.IH obtain a b where "s = a @ t @ b" by blast
      then have "c # s = (c # a) @ t @ b" by simp
      then show ?thesis by blast
    qed
  next
    assume "\<exists>a b. c # s = a @ t @ b"
    then obtain a b where ab: "c # s = a @ t @ b" by blast
    show "str_includes (c # s) t"
    proof (cases a)
      case Nil
      with ab have "prefix t (c # s)" by (simp add: prefix_def)
      then show ?thesis by simp
    next
      case (Cons x a')
      with ab have "s = a' @ t @ b" by simp
      with Cons.IH have "str_includes s t" by blast
      then show ?thesis by simp
    qed
  qed
qed

lemma SCOPEGREEN_miss:
  "prepare rt a = Inr p \<Longrightarrow> cache_check rt w (cacheKey rt p) = None \<Longrightarrow>
   SCOPEGREEN rt sv a w = after_miss rt sv w (cacheKey rt p) p"
  by (simp add: SCOPEGREEN_def)

lemma after_miss_built:
  "fullUrl rt p = Inr url \<Longrightarrow>
   after_miss rt sv w key p =
     (Inr (snd (fst (network_path rt sv w key (numMatches p) url))),
      snd (network_path rt sv w key (numMatches p) url))"
  by (simp add: after_miss_def split: prod.splits)

lemma after_miss_thrown:
  "fullUrl rt p = Inl e \<Longrightarrow> after_miss rt sv w key p = (Inl e, w)"
  by (simp add: after_miss_def)

lemma network_path_fetched:
  "fetch sv url = Inr (code, body) \<Longrightarrow>
   network_path rt sv w key n url =
     (case process_response rt sv (w\<lparr>trace := trace w @ [Fetch url]\<rparr>) key n code body of
        (Inr r, w') \<Rightarrow> (r, w')
      | (Inl error, w') \<Rightarrow> (catch_block rt error, w'))"
  by (simp add: network_path_def try_block_def Let_def)

lemma try_block_fetch_error:
  "fetch sv url = Inl e \<Longrightarrow>
   try_block rt sv w key n url = (Inl e, w\<lparr>trace := trace w @ [Fetch url]\<rparr>)"
  by (simp add: try_block_def Let_def)

lemma rate_limit_block_table:
  "rate_limit_block rt body = Some r \<Longrightarrow> \<exists>cell. r = JArr [JArr [cell]]"
  by (auto simp: rate_limit_block_def table1_def split: sum.splits if_splits)

lemma matches_branch_table:
  "matches_branch rt sv w key n data = (Inr (out, v), w') \<Longrightarrow> \<exists>row. v = JArr [JArr row]"
  by (auto simp: matches_branch_def Let_def split: sum.splits)

lemma handle_data_table:
  "handle_data rt sv w key n body data = (Inr (out, v), w') \<Longrightarrow> \<exists>row. v = JArr [JArr row]"
  by (auto simp: handle_data_def table1_def and_then_def
      split: sum.splits if_splits bool.splits dest: matches_branch_table)

lemma process_response_table:
  "process_response rt sv w key n code body = (Inr (out, v), w') \<Longrightarrow> \<exists>row. v = JArr [JArr row]"
  by (auto simp: process_response_def table1_def
      split: option.splits sum.splits if_splits dest: rate_limit_block_table handle_data_table)

lemma catch_block_table: "\<exists>cell. snd (catch_block rt e) = JArr [JArr [cell]]"
  by (simp add: catch_block_def table1_def)

lemma network_path_table: "\<exists>row. snd (fst (network_path rt sv w key n url)) = JArr [JArr row]"
proof (cases "try_block rt sv w key n url")
  case (Pair r w')
  show ?thesis
  proof (cases r)
    case (Inl e)
    with Pair show ?thesis
      using catch_block_table [of rt e] by (auto simp: network_path_def)
  next
    case (Inr ov)
    obtain out v where ov: "ov = (out, v)" by (cases ov)
    from Pair Inr ov have "\<exists>row. v = JArr [JArr row]"
      by (auto simp: try_block_def Let_def split: sum.splits dest: process_response_table)
    with Pair Inr ov show ?thesis by (auto simp: network_path_def)
  qed
qed

subsection \<open>The world after the call, and the success branch\<close>

lemma matches_branch_world:
  "snd (matches_branch rt sv w key n data) =
     (case fst (matches_branch rt sv w key n data) of
        Inr (Success, v) \<Rightarrow> cache_put sv w key (JSON_stringify rt v) 120
      | _ \<Rightarrow> w)"
  by (simp add: matches_branch_def Let_def split: sum.splits)

lemma matches_branch_outcome:
  "fst (matches_branch rt sv w key n data) = Inr (out, v) \<Longrightarrow> out = Success"
  by (simp add: matches_branch_def Let_def split: sum.splits)

lemma matches_branch_value:
  "fst (matches_branch rt sv w key n data) = fst (matches_branch rt sv' w' key' n data)"
  by (simp add: matches_branch_def Let_def split: sum.splits)

lemma handle_data_cases:
  "handle_data rt sv w key n body data = matches_branch rt sv w key n data
   \<or> (snd (handle_data rt sv w key n body data) = w
      \<and> (\<forall>v. fst (handle_data rt sv w key n body data) \<noteq> Inr (Success, v))
      \<and> (\<forall>sv' w' key'. fst (handle_data rt sv' w' key' n body data)
                           = fst (handle_data rt sv w key n body data)))"
  by (auto simp: handle_data_def and_then_def split: sum.splits bool.splits)

lemma handle_data_world:
  "snd (handle_data rt sv w key n body data) =
     (case fst (handle_data rt sv w key n body data) of
        Inr (Success, v) \<Rightarrow> cache_put sv w key (JSON_stringify rt v) 120
      | _ \<Rightarrow> w)"
proof -
  from handle_data_cases [of rt sv w key n body data]
  consider "handle_data rt sv w key n body data = matches_branch rt sv w key n data"
    | "snd (handle_data rt sv w key n body data) = w"
      "\<forall>v. fst (handle_data rt sv w key n body data) \<noteq> Inr (Success, v)"
    by blast
  then show ?thesis
  proof cases
    case 1
    then show ?thesis by (simp add: matches_branch_world)
  next
    case 2
    then show ?thesis
      by (auto split: sum.splits outcome.splits)
  qed
qed

lemma handle_data_value:
  "fst (handle_data rt sv w key n body data) = fst (handle_data rt sv' w' key' n body data)"
  by (auto simp: handle_data_def and_then_def matches_branch_value [of rt sv w key n data sv' w' key']
      split: sum.splits bool.splits)

lemma process_response_world:
  "snd (process_response rt sv w key n code body) =
     (case fst (process_response rt sv w key n code body) of
        Inr (Success, v) \<Rightarrow> cache_put sv w key (JSON_stringify rt v) 120
      | _ \<Rightarrow> w)"
  by (simp add: process_response_def handle_data_world split: option.splits sum.splits)


lemma catch_block_not_Success: "fst (catch_block rt e) \<noteq> Success"
  by (simp add: catch_block_def)

lemma network_path_world:
  "snd (network_path rt sv w key n url) =
     (case fst (network_path rt sv w key n url) of
        (Success, v) \<Rightarrow>
          cache_put sv (w\<lparr>trace := trace w @ [Fetch url]\<rparr>) key (JSON_stringify rt v) 120
      | _ \<Rightarrow> w\<lparr>trace := trace w @ [Fetch url]\<rparr>)"
proof (cases "fetch sv url")
  case (Inl e)
  then show ?thesis
    using catch_block_not_Success [of rt e]
    by (auto simp: network_path_def try_block_def Let_def split: prod.splits outcome.splits)
next
  case (Inr r)
  obtain code body where r: "r = (code, body)" by (cases r)
  let ?w1 = "w\<lparr>trace := trace w @ [Fetch url]\<rparr>"
  obtain x w' where pr: "process_response rt sv ?w1 key n code body = (x, w')"
    by (cases "process_response rt sv ?w1 key n code body")
  from process_response_world [of rt sv ?w1 key n code body] pr
  have w': "w' = (case x of Inr (Success, v) \<Rightarrow> cache_put sv ?w1 key (JSON_stringify rt v) 120
                   | _ \<Rightarrow> ?w1)"
    by simp
  show ?thesis
  proof (cases x)
    case (Inl e)
    with Inr r pr w' show ?thesis
      using catch_block_not_Success [of rt e]
      by (auto simp: network_path_fetched split: prod.splits outcome.splits)
  next
    case (Inr ov)
    with \<open>fetch sv url = Inr r\<close> r pr w' show ?thesis
      by (auto simp: network_path_fetched split: prod.splits outcome.splits)
  qed
qed

lemma network_path_trace:
  "\<exists>es. trace (snd (network_path rt sv w key n url)) = trace w @ Fetch url # es"
  by (simp add: network_path_world cache_put_def split: prod.splits outcome.splits)


lemma matches_branch_Success:
  assumes "fst (matches_branch rt sv w key n data) = Inr (out, v)"
  shows "\<exists>cells. format_loop rt n (prop_of data ''matches'') 1 [] = Inr cells
           \<and> v = JArr [JArr (cells @ [js_or (prop_of data ''explanation'') (JStr [])])]"
  using assms by (auto simp: matches_branch_def Let_def js_or_def split: sum.splits)

lemma handle_data_Success:
  assumes "fst (handle_data rt sv w key n body data) = Inr (Success, v)"
  shows "truthy (prop_of data ''matches'')
         \<and> (\<exists>len. toNumber rt (prop_of (prop_of data ''matches'') ''length'') = Inr len
                 \<and> js_gt_zero len)
         \<and> (\<exists>cells. format_loop rt n (prop_of data ''matches'') 1 [] = Inr cells
               \<and> v = JArr [JArr (cells @ [js_or (prop_of data ''explanation'') (JStr [])])])"
  using assms
  by (auto simp: handle_data_def and_then_def
      split: sum.splits if_splits bool.splits dest!: matches_branch_Success)

lemma network_path_Success:
  assumes "fst (network_path rt sv w key n url) = (Success, v)"
  shows "\<exists>code body data. fetch sv url = Inr (code, body)
           \<and> JSON_parse rt body = Inr data
           \<and> fst (handle_data rt sv w key n body data) = Inr (Success, v)"
proof (cases "fetch sv url")
  case (Inl e)
  with assms show ?thesis
    using catch_block_not_Success [of rt e]
    by (auto simp: network_path_def try_block_def Let_def)
next
  case (Inr r)
  obtain code body where r: "r = (code, body)" by (cases r)
  let ?w1 = "w\<lparr>trace := trace w @ [Fetch url]\<rparr>"
  from assms Inr r have "fst (process_response rt sv ?w1 key n code body) = Inr (Success, v)"
    using catch_block_not_Success [of rt]
    by (auto simp: network_path_fetched split: prod.splits sum.splits)
       (metis fst_conv)
  then obtain data where d: "JSON_parse rt body = Inr data"
      and h: "fst (handle_data rt sv ?w1 key n body data) = Inr (Success, v)"
    by (auto simp: process_response_def split: option.splits if_splits sum.splits)
  have "fst (handle_data rt sv w key n body data) = Inr (Success, v)"
    using h handle_data_value [of rt sv w key n body data sv ?w1 key] by simp
  with Inr r d show ?thesis by blast
qed

lemma network_path_Success_data:
  assumes "fst (network_path rt sv w key n url) = (Success, v)"
    and "fetch sv url = Inr (code, body)"
    and "JSON_parse rt body = Inr data"
  shows "\<exists>cells. format_loop rt n (prop_of data ''matches'') 1 [] = Inr cells
           \<and> v = JArr [JArr (cells @ [js_or (prop_of data ''explanation'') (JStr [])])]"
proof -
  from network_path_Success [OF assms(1)] assms(2,3)
  have "fst (handle_data rt sv w key n body data) = Inr (Success, v)"
    by auto
  from handle_data_Success [OF this] show ?thesis by blast
qed

subsection \<open>The formatter loop on an array\<close>

lemma loop_bound_JArr:
  "loop_bound rt n (JArr ms) = Inr (Math_min n (Fin (of_nat (length ms))))"
  by (simp add: loop_bound_def prop_of_def)

lemma format_loop_array:
  "format_loop rt n (JArr ms) i acc =
     (if js_le (Fin (of_nat i)) (Math_min n (Fin (of_nat (length ms))))
      then (case find_rank ms i of
              Inl e \<Rightarrow> Inl e
            | Inr m \<Rightarrow>
                if truthy m
                then (case match_cells rt i m of
                        Inl e \<Rightarrow> Inl e
                      | Inr cells \<Rightarrow> format_loop rt n (JArr ms) (Suc i) (acc @ cells))
                else format_loop rt n (JArr ms) (Suc i) acc)
      else Inr acc)"
  by (subst format_loop.simps) (simp add: loop_bound_JArr)

lemma format_loop_NaN:
  "toNumber rt (prop_of matches ''length'') = Inr len \<Longrightarrow>
   format_loop rt NaN matches i acc = Inr acc"
  by (subst format_loop.simps) (simp add: loop_bound_def)

lemma format_loop_found:
  assumes "js_le (Fin (of_nat i)) (Math_min n (Fin (of_nat (length ms))))"
    and "find_rank ms i = Inr m" and "truthy m"
  shows "format_loop rt n (JArr ms) i acc =
           (case match_cells rt i m of
              Inl e \<Rightarrow> Inl e
            | Inr cells \<Rightarrow> format_loop rt n (JArr ms) (Suc i) (acc @ cells))"
  using assms by (subst format_loop_array) simp

lemma format_loop_missing:
  assumes "js_le (Fin (of_nat i)) (Math_min n (Fin (of_nat (length ms))))"
    and "find_rank ms i = Inr m" and "\<not> truthy m"
  shows "format_loop rt n (JArr ms) i acc = format_loop rt n (JArr ms) (Suc i) acc"
  using assms by (subst format_loop_array) simp

lemma format_loop_stop:
  assumes "\<not> js_le (Fin (of_nat i)) (Math_min n (Fin (of_nat (length ms))))"
  shows "format_loop rt n (JArr ms) i acc = Inr acc"
  using assms by (subst format_loop_array) simp

lemma rank_is_object:
  "get_prop m ''rank'' = Inr (JNum r) \<Longrightarrow> \<exists>kvs. m = JObj kvs"
  by (cases m) (simp_all split: if_splits)

lemma rank_truthy: "prop_of m ''rank'' = JNum r \<Longrightarrow> truthy m"
  by (cases m) (simp_all add: prop_of_def split: if_splits)

lemma find_rank_truthy:
  "find_rank ms i = Inr m \<Longrightarrow>
   truthy m = (\<exists>x \<in> set ms. prop_of x ''rank'' = JNum (Fin (of_nat i)))"
proof (induction ms)
  case Nil
  then show ?case by auto
next
  case (Cons x xs)
  then show ?case
    by (auto simp: prop_of_def split: sum.splits if_splits dest: rank_is_object)
qed

lemma find_rank_first:
  "prop_of m ''rank'' = JNum (Fin (of_nat i)) \<Longrightarrow> find_rank (m # ms) i = Inr m"
  by (cases m) (simp_all add: prop_of_def split: if_splits)

lemma find_rank_second:
  "prop_of m ''rank'' = JNum (Fin (of_nat j)) \<Longrightarrow> i \<noteq> j
   \<Longrightarrow> find_rank (m # ms) i = find_rank ms i"
  by (cases m) (simp_all add: prop_of_def split: if_splits)

lemma match_cells_length: "match_cells rt i m = Inr cells \<Longrightarrow> length cells = 8"
  by (auto simp: match_cells_def and_then_eq_Inr)

lemma get_prop_defined:
  "v \<noteq> JUndefined \<Longrightarrow> v \<noteq> JNull \<Longrightarrow> get_prop v name = Inr (prop_of v name)"
  by (cases v) (simp_all add: prop_of_def)

lemma match_cells_Inr:
  assumes "match_cells rt i m = Inr cells"
  shows "\<exists>name. toStringJS rt (prop_of m ''matched_name'') = Inr name
           \<and> cells = [JStr (lit ''Match '' @ lit (show_nat i) @ lit '': '' @ name),
                      prop_of (prop_of m ''metric'') ''value'',
                      prop_of (prop_of m ''metric'') ''unit'',
                      js_or (prop_of m ''year'') (JStr []),
                      js_or (prop_of m ''geography'') (JStr []),
                      js_or (prop_of m ''source'') (JStr []),
                      js_or (prop_of m ''source_link'') (JStr []),
                      js_or (prop_of m ''conversion_info'') (JStr [])]"
proof -
  from assms obtain name v u
    where n: "toStringJS rt (prop_of m ''matched_name'') = Inr name"
      and v: "get_prop (prop_of m ''metric'') ''value'' = Inr v"
      and u: "get_prop (prop_of m ''metric'') ''unit'' = Inr u"
      and c: "cells = [JStr (lit ''Match '' @ lit (show_nat i) @ lit '': '' @ name), v, u,
                      js_or (prop_of m ''year'') (JStr []),
                      js_or (prop_of m ''geography'') (JStr []),
                      js_or (prop_of m ''source'') (JStr []),
                      js_or (prop_of m ''source_link'') (JStr []),
                      js_or (prop_of m ''conversion_info'') (JStr [])]"
    unfolding match_cells_def and_then_eq_Inr by blast
  have "prop_of (prop_of m ''metric'') ''value'' = v"
    and "prop_of (prop_of m ''metric'') ''unit'' = u"
    using v u by (simp_all add: prop_of_def [of "prop_of m ''metric''"])
  with n c show ?thesis by blast
qed

lemma match_cells_formats:
  assumes "toStringJS rt (prop_of m ''matched_name'') = Inr name"
    and "prop_of m ''metric'' \<noteq> JUndefined" and "prop_of m ''metric'' \<noteq> JNull"
  shows "match_cells rt i m =
           Inr [JStr (lit ''Match '' @ lit (show_nat i) @ lit '': '' @ name),
                prop_of (prop_of m ''metric'') ''value'',
                prop_of (prop_of m ''metric'') ''unit'',
                js_or (prop_of m ''year'') (JStr []),
                js_or (prop_of m ''geography'') (JStr []),
                js_or (prop_of m ''source'') (JStr []),
                js_or (prop_of m ''source_link'') (JStr []),
                js_or (prop_of m ''conversion_info'') (JStr [])]"
  using assms by (simp add: match_cells_def get_prop_defined)

subsection \<open>Printing integers is injective\<close>

lemma digit_char_in: "digit_char d \<in> set ''0123456789''"
  unfolding digit_char_def by (rule nth_mem) simp

lemma below_ten:
  "d < 10 \<Longrightarrow> d \<in> {0, 1, 2, 3, 4, 5, 6, 7, 8, 9::nat}"
  by auto

lemma digit_val_digit_char: "d < 10 \<Longrightarrow> digit_val (cu (digit_char d)) = Some d"
  by (drule below_ten) (auto simp: digit_char_def digit_val_def unat_cu)

lemma digits_value_snoc:
  "digits_value radix (ds @ [c]) =
     digits_value radix ds * radix + (case digit_val c of None \<Rightarrow> 0 | Some d \<Rightarrow> d)"
  by (simp add: digits_value_def)

lemma digits_value_show_nat: "digits_value 10 (lit (show_nat n)) = n"
proof (induction n rule: show_nat.induct)
  case (1 n)
  show ?case
  proof (cases "n < 10")
    case True
    then show ?thesis
      by (subst show_nat.simps) (simp add: digits_value_def digit_val_digit_char lit_Cons)
  next
    case False
    with 1 have "digits_value 10 (lit (show_nat (n div 10))) = n div 10" by simp
    with False show ?thesis
      by (subst show_nat.simps)
         (simp add: digits_value_snoc digit_val_digit_char lit_append lit_Cons)
  qed
qed

lemma show_nat_inj: "show_nat m = show_nat n \<Longrightarrow> m = n"
  by (metis digits_value_show_nat)

lemma show_nat_chars: "set (show_nat n) \<subseteq> set ''0123456789''"
proof (induction n rule: show_nat.induct)
  case (1 n)
  show ?case
  proof (cases "n < 10")
    case True
    then show ?thesis
      using digit_char_in [of n] by (subst show_nat.simps) simp
  next
    case False
    with 1 have "set (show_nat (n div 10)) \<subseteq> set ''0123456789''" by simp
    with False show ?thesis
      using digit_char_in [of "n mod 10"] by (subst show_nat.simps) simp
  qed
qed

lemma show_nat_not_Nil: "show_nat n \<noteq> []"
  by (subst show_nat.simps) simp

lemma show_nat_hd: "\<exists>c cs. show_nat n = c # cs \<and> c \<in> set ''0123456789''"
proof -
  obtain c cs where "show_nat n = c # cs"
    using show_nat_not_Nil [of n] by (cases "show_nat n") auto
  with show_nat_chars [of n] show ?thesis by auto
qed

lemma digit_not_other:
  "c \<in> set ''0123456789'' \<Longrightarrow>
   c \<noteq> CHR ''N'' \<and> c \<noteq> CHR ''I'' \<and> c \<noteq> CHR ''-'' \<and> c \<noteq> CHR ''_''"
  by auto

lemma show_int_shape:
  "\<exists>c cs. c \<in> set ''0123456789''
     \<and> (show_int k = c # cs \<or> show_int k = CHR ''-'' # c # cs)"
proof (cases "k < 0")
  case True
  obtain c cs where "show_nat (nat (- k)) = c # cs" "c \<in> set ''0123456789''"
    using show_nat_hd by blast
  with True have "c \<in> set ''0123456789'' \<and> show_int k = CHR ''-'' # c # cs"
    by (simp add: show_int_def)
  then show ?thesis by blast
next
  case False
  obtain c cs where "show_nat (nat k) = c # cs" "c \<in> set ''0123456789''"
    using show_nat_hd by blast
  with False have "c \<in> set ''0123456789'' \<and> show_int k = c # cs"
    by (simp add: show_int_def)
  then show ?thesis by blast
qed

lemma show_int_inj: "show_int k = show_int l \<Longrightarrow> k = l"
proof -
  assume e: "show_int k = show_int l"
  obtain c cs where c: "show_nat (nat l) = c # cs" "c \<noteq> CHR ''-''"
    using show_nat_hd [of "nat l"] digit_not_other by blast
  obtain d ds where d: "show_nat (nat k) = d # ds" "d \<noteq> CHR ''-''"
    using show_nat_hd [of "nat k"] digit_not_other by blast
  show ?thesis
  proof (cases "k < 0")
    case kn: True
    show ?thesis
    proof (cases "l < 0")
      case True
      with kn e have "show_nat (nat (- k)) = show_nat (nat (- l))"
        by (simp add: show_int_def)
      then have "nat (- k) = nat (- l)" by (rule show_nat_inj)
      with True kn show ?thesis by simp
    next
      case False
      with kn e c show ?thesis by (simp add: show_int_def)
    qed
  next
    case kp: False
    show ?thesis
    proof (cases "l < 0")
      case True
      with kp e d show ?thesis by (simp add: show_int_def)
    next
      case False
      with kp e have "show_nat (nat k) = show_nat (nat l)"
        by (simp add: show_int_def)
      then have "nat k = nat l" by (rule show_nat_inj)
      with False kp show ?thesis by simp
    qed
  qed
qed

lemma show_int_no_underscore: "CHR ''_'' \<notin> set (show_int k)"
proof -
  have "CHR ''_'' \<notin> set (show_nat n)" for n
    using show_nat_chars [of n] by auto
  then show ?thesis by (simp add: show_int_def)
qed

lemma show_int_not_special:
  "show_int k \<noteq> ''NaN'' \<and> show_int k \<noteq> ''Infinity'' \<and> show_int k \<noteq> ''-Infinity''"
proof -
  obtain c cs where c: "c \<in> set ''0123456789''"
    and s: "show_int k = c # cs \<or> show_int k = CHR ''-'' # c # cs"
    using show_int_shape by blast
  from digit_not_other [OF c] s show ?thesis by auto
qed

subsection \<open>The numbers that \<^verbatim>\<open>parseInt\<close> returns\<close>

lemma to_double_cases:
  "to_double k = NegInf \<or> to_double k = PosInf \<or> (\<exists>j. to_double k = Fin (of_int j))"
  by (simp add: to_double_def Let_def)

lemma to_double_safe: "\<bar>k\<bar> < 2 ^ 53 \<Longrightarrow> to_double k = Fin (of_int k)"
proof -
  assume "\<bar>k\<bar> < 2 ^ 53"
  then have "nat \<bar>k\<bar> < 2 ^ 53"
    by (simp add: nat_less_iff)
  then show ?thesis by (simp add: to_double_def)
qed

lemma parseInt_string_range: "parseInt_string s \<in> insert NaN (range to_double)"
  by (simp add: parseInt_string_def Let_def)

lemma prepare_numMatches_range:
  assumes "prepare rt a = Inr p"
  shows "numMatches p \<in> insert NaN (range to_double)"
proof -
  have one: "Fin 1 = to_double 1"
    using to_double_safe [of 1] by simp
  from assms obtain n where n: "numMatches p = n"
    and c: "(if truthy (raw_numMatches a) then parseInt rt (raw_numMatches a) else Inr (Fin 1))
           = Inr n"
    by (auto simp: prepare_def and_then_eq_Inr split: option.splits)
  have "n \<in> insert NaN (range to_double)"
  proof (cases "truthy (raw_numMatches a)")
    case True
    with c obtain s where "n = parseInt_string s"
      by (auto simp: parseInt_def and_then_eq_Inr)
    then show ?thesis using parseInt_string_range [of s] by simp
  next
    case False
    with c have "n = to_double 1" using one by simp
    then show ?thesis by blast
  qed
  with n show ?thesis by simp
qed

subsection \<open>Splitting a key at its delimiters\<close>

lemma split_at_delimiter:
  assumes "c \<notin> set a" and "c \<notin> set b" and "a @ c # r = b @ c # s"
  shows "a = b \<and> r = s"
  using assms
proof (induction a arbitrary: b)
  case Nil
  then show ?case by (cases b) auto
next
  case (Cons x a)
  then show ?case by (cases b) auto
qed

subsection \<open>Where an ampersand can stand in the query string\<close>

lemma hex_char_in: "hex_char d \<in> set ''0123456789ABCDEF''"
  unfolding hex_char_def by (rule nth_mem) simp

lemma percent_no_amp: "CHR ''&'' \<notin> set (percent b)"
  using hex_char_in [of "b div 16"] hex_char_in [of "b mod 16"]
  by (auto simp: percent_def)

lemma utf8_percent_no_amp: "CHR ''&'' \<notin> set (utf8_percent n)"
  using percent_no_amp by (simp add: utf8_percent_def)

lemma unreserved_not_amp: "uri_unreserved c \<Longrightarrow> c \<noteq> cu CHR ''&''"
  by (auto simp: uri_unreserved_def Let_def unat_cu)

lemma encoded_before_Inr:
  "encoded_before s r = Inr t \<longleftrightarrow> (\<exists>u. r = Inr u \<and> t = s @ u)"
  by (cases r) (auto simp: encoded_before_def)

lemma encodeURIComponent_no_amp:
  "encodeURIComponent s = Inr e \<Longrightarrow> cu CHR ''&'' \<notin> set e"
proof (induction s arbitrary: e rule: encodeURIComponent.induct)
  case 1
  then show ?case by simp
next
  case (2 c cs)
  show ?case
  proof (cases "uri_unreserved c")
    case True
    with 2 show ?thesis
      by (auto simp: encoded_before_Inr dest: unreserved_not_amp)
  next
    case False
    show ?thesis
    proof (cases "\<not> is_high_surrogate c \<and> \<not> is_low_surrogate c")
      case True
      with False 2 show ?thesis
        using utf8_percent_no_amp by (auto simp: encoded_before_Inr)
    next
      case False
      with \<open>\<not> uri_unreserved c\<close> 2 show ?thesis
        using utf8_percent_no_amp
        by (auto simp: encoded_before_Inr split: if_splits list.splits)
    qed
  qed
qed

lemma str_includes_skip:
  "c \<notin> set a \<Longrightarrow> str_includes (a @ b) (c # t) = str_includes b (c # t)"
  by (induction a) auto

lemma str_includes_other_segment:
  assumes "query_segment b name v = Inr seg"
    and "name \<in> set [''year'', ''geography'', ''metric'', ''mode'', ''domain'',
                       ''not_english'', ''unit'']"
  shows "str_includes (seg @ rest) (lit ''&num_matches='')
           = str_includes rest (lit ''&num_matches='')"
proof (cases b)
  case False
  with assms(1) show ?thesis by (simp add: query_segment_def)
next
  case True
  with assms(1) obtain e where e: "encodeURIComponent v = Inr e"
    and seg: "seg = lit ''&'' @ lit name @ lit ''='' @ e"
    by (auto simp: query_segment_def and_then_eq_Inr)
  have "str_includes (e @ rest) (cu CHR ''&'' # lit ''num_matches='')
          = str_includes rest (cu CHR ''&'' # lit ''num_matches='')"
    by (rule str_includes_skip [OF encodeURIComponent_no_amp [OF e]])
  with seg assms(2) show ?thesis
    by (auto simp: lit_Cons)
qed

lemma queryParams_without_num_matches:
  assumes "\<not> truthy (JNum (numMatches p))"
  shows "queryParams rt p =
     and_then (encodeURIComponent (itemName p)) (\<lambda>s0.
     and_then (query_segment (year p \<noteq> []) ''year'' (year p)) (\<lambda>s1.
     and_then (query_segment (geography p \<noteq> []) ''geography'' (geography p)) (\<lambda>s2.
     and_then (query_segment (metric p \<noteq> []) ''metric'' (metric p)) (\<lambda>s3.
     and_then (query_segment (mode p \<noteq> []) ''mode'' (mode p)) (\<lambda>s4.
     and_then (query_segment (domain p \<noteq> []) ''domain'' (domain p)) (\<lambda>s6.
     and_then (query_segment True ''not_english''
                 (lit (if notEnglish p then ''true'' else ''false''))) (\<lambda>s7.
     and_then (query_segment (unit p \<noteq> []) ''unit'' (unit p)) (\<lambda>s8.
       Inr (lit ''item_name='' @ s0 @ s1 @ s2 @ s3 @ s4 @ lit ''&web_mode=false''
              @ s6 @ s7 @ s8)))))))))"
  using assms by (simp add: queryParams_def query_segment_def [of False])

lemma no_num_matches_segment:
  assumes "\<not> truthy (JNum (numMatches p))" and "queryParams rt p = Inr q"
  shows "\<not> str_includes q (lit ''&num_matches='')"
proof -
  from assms(2) [unfolded queryParams_without_num_matches [OF assms(1)] and_then_eq_Inr]
  obtain s0 s1 s2 s3 s4 s6 s7 s8
    where s0: "encodeURIComponent (itemName p) = Inr s0"
      and s1: "query_segment (year p \<noteq> []) ''year'' (year p) = Inr s1"
      and s2: "query_segment (geography p \<noteq> []) ''geography'' (geography p) = Inr s2"
      and s3: "query_segment (metric p \<noteq> []) ''metric'' (metric p) = Inr s3"
      and s4: "query_segment (mode p \<noteq> []) ''mode'' (mode p) = Inr s4"
      and s6: "query_segment (domain p \<noteq> []) ''domain'' (domain p) = Inr s6"
      and s7: "query_segment True ''not_english''
                 (lit (if notEnglish p then ''true'' else ''false'')) = Inr s7"
      and s8: "query_segment (unit p \<noteq> []) ''unit'' (unit p) = Inr s8"
      and q: "q = lit ''item_name='' @ s0 @ s1 @ s2 @ s3 @ s4 @ lit ''&web_mode=false''
                    @ s6 @ s7 @ s8"
    by blast
  let ?pat = "lit ''&num_matches=''"
  have first: "str_includes (s0 @ rest) ?pat = str_includes rest ?pat" for rest
    using str_includes_skip [OF encodeURIComponent_no_amp [OF s0], of rest "lit ''num_matches=''"]
    by (simp add: lit_Cons)
  have name: "str_includes (lit ''item_name='' @ rest) ?pat = str_includes rest ?pat" for rest
    by (simp add: lit_Cons)
  have web: "str_includes (lit ''&web_mode=false'' @ rest) ?pat = str_includes rest ?pat"
    for rest
    by (simp add: lit_Cons)
  have last: "str_includes s8 ?pat = False"
    using str_includes_other_segment [OF s8, of "[]"] by (simp add: lit_Cons)
  show ?thesis
    unfolding q
    by (simp only: name first web last
          str_includes_other_segment [OF s1] str_includes_other_segment [OF s2]
          str_includes_other_segment [OF s3] str_includes_other_segment [OF s4]
          str_includes_other_segment [OF s6] str_includes_other_segment [OF s7]
          list.set list.simps insert_iff simp_thms)
qed

subsection \<open>The rate-limit block\<close>

lemma rate_limit_block_unparsed:
  "JSON_parse rt body = Inl m \<Longrightarrow>
   rate_limit_block rt body =
     Some (JArr [JArr [JStr (lit ''Rate limit exceeded: Please try again later.'')]])"
  by (simp add: rate_limit_block_def table1_def)

lemma rate_limit_block_message:
  assumes "JSON_parse rt body = Inr errorData"
    and "truthy (prop_of errorData ''error'')"
    and "truthy (prop_of (prop_of errorData ''error'') ''message'')"
    and "toStringJS rt (prop_of (prop_of errorData ''error'') ''message'') = Inr s"
  shows "rate_limit_block rt body =
           Some (JArr [JArr [JStr (lit ''Rate limit exceeded: '' @ s)]])"
proof -
  from assms(2) obtain err where "get_prop errorData ''error'' = Inr err"
      and "prop_of errorData ''error'' = err"
    by (cases "get_prop errorData ''error''") (simp_all add: prop_of_def)
  with assms show ?thesis
    by (simp add: rate_limit_block_def table1_def)
qed

lemma rate_limit_block_falls_through:
  assumes "JSON_parse rt body = Inr errorData"
    and "errorData \<noteq> JUndefined" and "errorData \<noteq> JNull"
    and "\<not> (truthy (prop_of errorData ''error'')
            \<and> truthy (prop_of (prop_of errorData ''error'') ''message''))"
  shows "rate_limit_block rt body = None"
proof -
  from assms(2,3) obtain err where "get_prop errorData ''error'' = Inr err"
      and "prop_of errorData ''error'' = err"
    by (cases errorData) (simp_all add: prop_of_def)
  with assms show ?thesis
    by (auto simp: rate_limit_block_def)
qed

subsection \<open>The exception of the query builder\<close>

lemma encoded_before_Inl: "encoded_before s r = Inl e \<longleftrightarrow> r = Inl e"
  by (cases r) (auto simp: encoded_before_def)

lemma encodeURIComponent_error: "encodeURIComponent s = Inl e \<Longrightarrow> e = URIError"
  by (induction s rule: encodeURIComponent.induct)
     (auto simp: encoded_before_Inl split: if_splits list.splits)

lemma and_then_eq_Inl:
  "and_then r f = Inl e \<longleftrightarrow> r = Inl e \<or> (\<exists>x. r = Inr x \<and> f x = Inl e)"
  by (cases r) simp_all

lemma query_segment_error: "query_segment present name v = Inl e \<Longrightarrow> e = URIError"
  by (auto simp: query_segment_def and_then_eq_Inl split: if_splits
      dest: encodeURIComponent_error)

lemma fullUrl_error: "fullUrl rt p = Inl e \<Longrightarrow> e = URIError"
  unfolding fullUrl_def queryParams_def and_then_eq_Inl
  by (auto dest: encodeURIComponent_error query_segment_error)

subsection \<open>A body with matches\<close>

lemma prop_defined:
  "prop_of data name = JArr ms \<Longrightarrow> data \<noteq> JUndefined \<and> data \<noteq> JNull"
  by (auto simp: prop_of_def)

lemma handle_data_matches:
  assumes "\<not> truthy (prop_of data ''error'')"
    and "\<not> is_no_match (prop_of data ''message'')"
    and "prop_of data ''matches'' = JArr ms" and "ms \<noteq> []"
    and "format_loop rt n (JArr ms) 1 [] = Inr cells"
  shows "handle_data rt sv w key n body data =
           (Inr (Success, JArr [JArr (cells @ [js_or (prop_of data ''explanation'') (JStr [])])]),
            cache_put sv w key
              (JSON_stringify rt
                 (JArr [JArr (cells @ [js_or (prop_of data ''explanation'') (JStr [])])])) 120)"
proof -
  from prop_defined [OF assms(3)]
  have g: "get_prop data ''error'' = Inr (prop_of data ''error'')"
    by (simp add: get_prop_defined)
  have l: "toNumber rt (prop_of (JArr ms) ''length'') = Inr (Fin (of_nat (length ms)))"
    by (simp add: prop_of_def)
  have mb: "matches_branch rt sv w key n data =
           (Inr (Success, JArr [JArr (cells @ [js_or (prop_of data ''explanation'') (JStr [])])]),
            cache_put sv w key
              (JSON_stringify rt
                 (JArr [JArr (cells @ [js_or (prop_of data ''explanation'') (JStr [])])])) 120)"
    using assms(5) by (simp add: matches_branch_def assms(3) js_or_def Let_def)
  show ?thesis
    using assms(1,2,4)
    by (simp add: handle_data_def g assms(3) l mb)
qed

lemma network_path_matches:
  assumes "fetch sv url = Inr (code, body)"
    and "JSON_parse rt body = Inr data"
    and "\<not> truthy (prop_of data ''error'')"
    and "\<not> is_no_match (prop_of data ''message'')"
    and "prop_of data ''matches'' = JArr ms" and "ms \<noteq> []"
    and "format_loop rt n (JArr ms) 1 [] = Inr cells"
  shows "fst (network_path rt sv w key n url) =
           (Success, JArr [JArr (cells @ [js_or (prop_of data ''explanation'') (JStr [])])])"
proof -
  note d = prop_defined [OF assms(5)]
  have r: "rate_limit_block rt body = None"
    using rate_limit_block_falls_through [OF assms(2)] d assms(3) by simp
  show ?thesis
    using d
    by (simp add: network_path_fetched [OF assms(1)] process_response_def r assms(2)
          handle_data_matches [OF assms(3-7)])
qed

lemma prepare_numMatches:
  "prepare rt a = Inr p \<Longrightarrow>
   (if truthy (raw_numMatches a) then parseInt rt (raw_numMatches a) else Inr (Fin 1))
     = Inr (numMatches p)"
  by (auto simp: prepare_def and_then_eq_Inr split: option.splits)

subsection \<open>The exceptions that leave the \<^verbatim>\<open>try\<close> block\<close>

lemma is_TypeError_TypeError [simp]: "is_TypeError (TypeError site)"
  by (simp add: is_TypeError_def)

lemma get_prop_error: "get_prop v name = Inl e \<Longrightarrow> is_TypeError e"
  by (cases v) auto

lemma toStringJS_error:
  "toStringJS rt v = Inl e \<Longrightarrow> is_TypeError e"
  "join_comma rt xs = Inl e \<Longrightarrow> is_TypeError e"
  by (induction rt v and rt xs rule: toStringJS_join_comma.induct)
     (auto split: if_splits sum.splits)

lemma toNumber_error: "toNumber rt v = Inl e \<Longrightarrow> is_TypeError e"
  by (cases v) (auto simp: and_then_eq_Inl dest: toStringJS_error split: if_splits)

lemma find_rank_error: "find_rank ms i = Inl e \<Longrightarrow> is_TypeError e"
  by (induction ms) (auto split: sum.splits if_splits dest: get_prop_error)

lemma match_cells_error: "match_cells rt i m = Inl e \<Longrightarrow> is_TypeError e"
  by (auto simp: match_cells_def and_then_eq_Inl dest: get_prop_error toStringJS_error)

lemma loop_bound_error: "loop_bound rt n matches = Inl e \<Longrightarrow> is_TypeError e"
  by (auto simp: loop_bound_def and_then_eq_Inl dest: toNumber_error)


lemma format_loop_error: "format_loop rt n matches i acc = Inl e \<Longrightarrow> is_TypeError e"
proof (induction rt n matches i acc rule: format_loop.induct)
  case (1 rt n matches i result)
  show ?case
  proof (cases "loop_bound rt n matches")
    case (Inl e')
    with "1.prems" show ?thesis
      by (subst (asm) format_loop.simps) (auto dest: loop_bound_error)
  next
    case (Inr bound)
    note b = Inr
    show ?thesis
    proof (cases "js_le (Fin (of_nat i)) bound")
      case False
      with b "1.prems" show ?thesis
        by (subst (asm) format_loop.simps) simp
    next
      case True
      note le = True
      show ?thesis
      proof (cases "\<exists>ms. matches = JArr ms")
        case False
        with b le "1.prems" show ?thesis
          by (subst (asm) format_loop.simps) (cases matches; auto)
      next
        case True
        then obtain ms where ms: "matches = JArr ms" ..
        show ?thesis
        proof (cases "find_rank ms i")
          case (Inl e')
          with b le ms "1.prems" show ?thesis
            by (subst (asm) format_loop.simps) (auto dest: find_rank_error)
        next
          case (Inr m)
          note f = Inr
          show ?thesis
          proof (cases "truthy m")
            case False
            with b le ms f "1.prems" "1.IH"(2) [OF b le ms f False] show ?thesis
              by (subst (asm) format_loop.simps) simp
          next
            case True
            note t = True
            show ?thesis
            proof (cases "match_cells rt i m")
              case (Inl e')
              with b le ms f t "1.prems" show ?thesis
                by (subst (asm) format_loop.simps) (auto dest: match_cells_error)
            next
              case (Inr cells)
              with b le ms f t "1.prems" "1.IH"(1) [OF b le ms f t Inr] show ?thesis
                by (subst (asm) format_loop.simps) simp
            qed
          qed
        qed
      qed
    qed
  qed
qed

lemma matches_branch_error:
  "fst (matches_branch rt sv w key n data) = Inl e \<Longrightarrow> is_TypeError e"
  by (auto simp: matches_branch_def Let_def split: sum.splits dest: format_loop_error)

lemma handle_data_error:
  assumes "fst (handle_data rt sv w key n body data) = Inl e"
  shows "is_TypeError e"
proof (cases "get_prop data ''error''")
  case (Inl e')
  with assms show ?thesis
    by (auto simp: handle_data_def dest: get_prop_error)
next
  case (Inr err)
  note g = Inr
  show ?thesis
  proof (cases "truthy err")
    case True
    with g assms show ?thesis
      by (auto simp: handle_data_def and_then_eq_Inl dest: toStringJS_error)
  next
    case False
    note ne = False
    show ?thesis
    proof (cases "is_no_match (prop_of data ''message'')")
      case True
      with g ne assms show ?thesis
        by (simp add: handle_data_def)
    next
      case False
      note nm = False
      let ?c = "if truthy (prop_of data ''matches'')
                then and_then (toNumber rt (prop_of (prop_of data ''matches'') ''length''))
                       (\<lambda>len. Inr (js_gt_zero len))
                else Inr False"
      show ?thesis
      proof (cases ?c)
        case (Inl e')
        with g ne nm assms have "e = e'"
          by (simp add: handle_data_def)
        with Inl show ?thesis
          by (auto simp: and_then_eq_Inl split: if_splits dest: toNumber_error)
      next
        case (Inr b)
        show ?thesis
        proof (cases b)
          case True
          with Inr g ne nm assms show ?thesis
            by (simp add: handle_data_def matches_branch_error)
        next
          case False
          with Inr g ne nm assms show ?thesis
            by (auto simp: handle_data_def and_then_eq_Inl split: if_splits
                dest: toStringJS_error)
        qed
      qed
    qed
  qed
qed

lemma process_response_error:
  "fst (process_response rt sv w key n code body) = Inl e \<Longrightarrow> is_TypeError e"
  by (auto simp: process_response_def split: option.splits sum.splits if_splits
      dest: handle_data_error)

lemma try_block_error:
  assumes "fst (try_block rt sv w key n url) = Inl e"
  shows "fetch sv url = Inl e \<or> is_TypeError e"
proof (cases "fetch sv url")
  case (Inl e')
  with assms show ?thesis by (simp add: try_block_def Let_def)
next
  case (Inr r)
  obtain code body where "r = (code, body)" by (cases r)
  with Inr assms show ?thesis
    by (simp add: try_block_def Let_def process_response_error)
qed

lemma network_path_unparsed:
  assumes "fetch sv url = Inr (code, body)" and "JSON_parse rt body = Inl m"
  shows "fst (network_path rt sv w key n url) =
           (if code = 429
            then (RateLimited,
                  JArr [JArr [JStr (lit ''Rate limit exceeded: Please try again later.'')]])
            else (Malformed, JArr [JArr [JStr body]]))"
  by (simp add: network_path_fetched [OF assms(1)] process_response_def
        rate_limit_block_unparsed [OF assms(2)] assms(2) table1_def)

section \<open>Facts about the samples\<close>

lemmas prepare_defs = prepare_def log_parameters_def prepare_text_def trim_def is_space_def
  parseInt_def parseInt_string_def is_digit_in_def digit_val_def digits_value_def to_double_def
  is_safe_int_def show_int_def show_nat.simps digit_char_def Let_def lit_def cu_def

lemmas url_defs = fullUrl_def queryParams_def query_segment_def encoded_before_def
  uri_unreserved_def is_high_surrogate_def is_low_surrogate_def utf8_percent_def percent_def
  hex_char_def API_BASE_URL_def is_safe_int_def show_int_def show_nat.simps digit_char_def
  Let_def lit_def cu_def

lemma sample_prepare_1:
  "prepare sample_rt (only_item (lit ''steel'') JUndefined) = Inr (sample_params (Fin 1))"
  by (simp add: sample_defs sample_params_def prepare_defs)

lemma sample_prepare_2:
  "prepare sample_rt (only_item (lit ''steel'') (JNum (Fin 2))) = Inr (sample_params (Fin 2))"
  by (simp add: sample_defs sample_params_def prepare_defs)

lemma sample_prepare_3:
  "prepare sample_rt (only_item (lit ''steel'') (JNum (Fin 3))) = Inr (sample_params (Fin 3))"
  by (simp add: sample_defs sample_params_def prepare_defs)

lemma sample_prepare_abc:
  "prepare sample_rt (only_item (lit ''steel'') (JStr (lit ''abc''))) = Inr (sample_params NaN)"
  by (simp add: sample_defs sample_params_def prepare_defs)

lemma sample_key_2:
  "cacheKey sample_rt (sample_params (Fin 2)) = lit ''LCA_steel___Carbon footprint__2_lite_false_''"
  by (simp add: sample_params_def cacheKey_def is_safe_int_def show_int_def show_nat.simps
        digit_char_def lit_def cu_def)

lemma sample_url_1:
  "fullUrl sample_rt (sample_params (Fin 1))
     = Inr (lit ''https://scopegreen-main-1a948ab.d2.zuplo.dev/api/metrics/search?item_name=steel&metric=Carbon%20footprint&mode=lite&web_mode=false&num_matches=1&not_english=false'')"
  by (simp add: sample_params_def url_defs)

lemma sample_url_2:
  "fullUrl sample_rt (sample_params (Fin 2))
     = Inr (lit ''https://scopegreen-main-1a948ab.d2.zuplo.dev/api/metrics/search?item_name=steel&metric=Carbon%20footprint&mode=lite&web_mode=false&num_matches=2&not_english=false'')"
  by (simp add: sample_params_def url_defs)

lemma sample_url_3:
  "fullUrl sample_rt (sample_params (Fin 3))
     = Inr (lit ''https://scopegreen-main-1a948ab.d2.zuplo.dev/api/metrics/search?item_name=steel&metric=Carbon%20footprint&mode=lite&web_mode=false&num_matches=3&not_english=false'')"
  by (simp add: sample_params_def url_defs)

lemma sample_url_NaN:
  "fullUrl sample_rt (sample_params NaN)
     = Inr (lit ''https://scopegreen-main-1a948ab.d2.zuplo.dev/api/metrics/search?item_name=steel&metric=Carbon%20footprint&mode=lite&web_mode=false&not_english=false'')"
  by (simp add: sample_params_def url_defs)

lemma sample_fetch: "fetch (responding code body) url = Inr (code, body)"
  by (simp add: responding_def)

lemma sample_miss: "cache_check rt empty_world key = None"
  by (simp add: cache_check_def cache_get_def empty_world_def)

lemma trace_empty_world: "trace empty_world = []"
  by (simp add: empty_world_def)

lemma sample_parse_1_2: "JSON_parse sample_rt (lit body_ranks_1_2) = Inr data_ranks_1_2"
  by (simp add: sample_defs lit_def cu_def)

lemma sample_parse_1_3: "JSON_parse sample_rt (lit body_ranks_1_3) = Inr data_ranks_1_3"
  by (simp add: sample_defs lit_def cu_def)


lemma sample_network_2:
  "network_path sample_rt (responding 200 (lit body_ranks_1_2)) empty_world key (Fin 2) url
     = ((Success, row_table),
        \<lparr> store = [key \<mapsto> (lit row_text, 120)],
          trace = [Fetch url, Put key (lit row_text) 120] \<rparr>)"
  by (simp add: network_path_def try_block_def Let_def sample_defs run_defs)

lemma sample_network_3:
  "fst (network_path sample_rt (responding 200 (lit body_ranks_1_2)) w key (Fin 3) url)
     = (Success, row_table)"
  by (simp add: network_path_def try_block_def Let_def sample_defs run_defs)

lemma sample_unparsed:
  "map_of sample_texts s = None \<Longrightarrow> \<exists>m. JSON_parse sample_rt s = Inl m"
  by (cases s) (simp_all add: sample_rt_def sample_parse_def)

lemma sample_lone_surrogate:
  "prepare sample_rt (only_item [55357] JUndefined) = Inr ((sample_params (Fin 1))\<lparr>itemName := [55357]\<rparr>)"
  by (simp add: sample_defs sample_params_def prepare_defs)

lemma sample_lone_surrogate_url:
  "fullUrl sample_rt ((sample_params (Fin 1))\<lparr>itemName := [55357]\<rparr>) = Inl URIError"
  by (simp add: sample_params_def url_defs)

subsection \<open>How the sample runtime prints the numbers of \<^verbatim>\<open>parseInt\<close>\<close>

lemma of_int_not_fraction: "(of_int j :: real) \<noteq> 5 / 2" "(of_int j :: real) \<noteq> 19 / 10"
proof -
  show "(of_int j :: real) \<noteq> 5 / 2"
  proof
    assume "(of_int j :: real) = 5 / 2"
    then have "(of_int (2 * j) :: real) = of_int 5" by simp
    then have "2 * j = 5" by (simp only: of_int_eq_iff)
    then show False by presburger
  qed
  show "(of_int j :: real) \<noteq> 19 / 10"
  proof
    assume "(of_int j :: real) = 19 / 10"
    then have "(of_int (10 * j) :: real) = of_int 19" by simp
    then have "10 * j = 19" by (simp only: of_int_eq_iff)
    then show False by presburger
  qed
qed

lemma sample_prints_int: "numToString sample_rt (Fin (of_int j)) = lit (show_int j)"
  using of_int_not_fraction [of j] by (simp add: sample_rt_def)

lemma sample_prints_cases:
  assumes "n \<in> insert NaN (range to_double)"
  shows "numToString sample_rt n = lit ''NaN'' \<and> n = NaN
       \<or> numToString sample_rt n = lit ''Infinity'' \<and> n = PosInf
       \<or> numToString sample_rt n = lit ''-Infinity'' \<and> n = NegInf
       \<or> (\<exists>j. numToString sample_rt n = lit (show_int j) \<and> n = Fin (of_int j))"
proof -
  from assms to_double_cases
  have "n = NaN \<or> n = NegInf \<or> n = PosInf \<or> (\<exists>j. n = Fin (of_int j))"
    by auto
  then show ?thesis
    using sample_prints_int by auto
qed

lemma sample_prints_inj: "inj_on (numToString sample_rt) (insert NaN (range to_double))"
proof (rule inj_onI)
  fix x y
  assume x: "x \<in> insert NaN (range to_double)" and y: "y \<in> insert NaN (range to_double)"
    and e: "numToString sample_rt x = numToString sample_rt y"
  from sample_prints_cases [OF x] sample_prints_cases [OF y] e
  show "x = y"
    using show_int_not_special show_int_inj
    by (elim disjE exE conjE) (simp_all, metis+)
qed

lemma sample_prints_no_underscore:
  "\<forall>n \<in> insert NaN (range to_double). cu CHR ''_'' \<notin> set (numToString sample_rt n)"
proof
  fix n
  assume "n \<in> insert NaN (range to_double)"
  from sample_prints_cases [OF this] show "cu CHR ''_'' \<notin> set (numToString sample_rt n)"
    using show_int_no_underscore by (elim disjE exE conjE) simp_all
qed

section \<open>Claims\<close>

text \<open>
  C1. The claim holds when the body of a 429 response does not parse, and when it parses to
  a value with a truthy \<^verbatim>\<open>error.message\<close>. It fails in the remaining case: the block of
  lines 99 to 110 returns the generic message only from its \<^verbatim>\<open>catch\<close>, so a body that
  parses without an \<^verbatim>\<open>error.message\<close> leaves the block and is classified like the body of
  any other response. For the body \<^verbatim>\<open>{"error":"Too Many Requests"}\<close> the cell is
  \<^verbatim>\<open>undefined: undefined\<close>, for the body \<^verbatim>\<open>{}\<close> it is the raw text; neither is a
  rate-limit message.
\<close>

theorem rate_limit_without_message_falls_through:
  "SCOPEGREEN sample_rt (responding 429 (lit body_error_text)) (only_item (lit ''steel'') JUndefined)
       empty_world
     = (Inr (JArr [JArr [JStr (lit ''undefined: undefined'')]]),
        empty_world\<lparr>trace := [Fetch (lit ''https://scopegreen-main-1a948ab.d2.zuplo.dev/api/metrics/search?item_name=steel&metric=Carbon%20footprint&mode=lite&web_mode=false&num_matches=1&not_english=false'')]\<rparr>)
   \<and> SCOPEGREEN sample_rt (responding 429 (lit ''{}'')) (only_item (lit ''steel'') JUndefined)
       empty_world
     = (Inr (JArr [JArr [JStr (lit ''{}'')]]),
        empty_world\<lparr>trace := [Fetch (lit ''https://scopegreen-main-1a948ab.d2.zuplo.dev/api/metrics/search?item_name=steel&metric=Carbon%20footprint&mode=lite&web_mode=false&num_matches=1&not_english=false'')]\<rparr>)"
proof -
  have 1: "process_response sample_rt sv w key n 429 (lit body_error_text)
             = (Inr (ApiError, JArr [JArr [JStr (lit ''undefined: undefined'')]]), w)"
    for sv w key n
    by (simp add: sample_defs process_response_def rate_limit_block_def handle_data_def
          prop_of_def table1_def lit_def cu_def)
  have 2: "process_response sample_rt sv w key n 429 (lit ''{}'')
             = (Inr (UnexpectedShape, JArr [JArr [JStr (lit ''{}'')]]), w)" for sv w key n
    by (simp add: sample_defs process_response_def rate_limit_block_def handle_data_def
          prop_of_def table1_def is_no_match_def lit_def cu_def)
  show ?thesis
    by (simp add: SCOPEGREEN_miss [OF sample_prepare_1 sample_miss]
          after_miss_built [OF sample_url_1] network_path_fetched [OF sample_fetch]
          1 2 trace_empty_world)
qed

text \<open>
  C2. The key is a function of the normalized tuple, so equal tuples have equal keys. The
  second half of the claim fails: the key joins the fields with an underscore and escapes
  nothing, so an underscore inside a field moves the boundary. The calls
  \<^verbatim>\<open>SCOPEGREEN("a_")\<close> and \<^verbatim>\<open>SCOPEGREEN("a", "_")\<close> have different normalized tuples and
  the same key.
\<close>

theorem cacheKey_collision_counterexample:
  "prepare sample_rt (only_item (lit ''a_'') JUndefined)
     = Inr ((sample_params (Fin 1))\<lparr>itemName := lit ''a_''\<rparr>)
   \<and> prepare sample_rt ((only_item (lit ''a'') JUndefined)\<lparr>raw_year := JStr (lit ''_'')\<rparr>)
     = Inr ((sample_params (Fin 1))\<lparr>itemName := lit ''a'', year := lit ''_''\<rparr>)
   \<and> (sample_params (Fin 1))\<lparr>itemName := lit ''a_''\<rparr>
     \<noteq> (sample_params (Fin 1))\<lparr>itemName := lit ''a'', year := lit ''_''\<rparr>
   \<and> cacheKey sample_rt ((sample_params (Fin 1))\<lparr>itemName := lit ''a_''\<rparr>)
     = lit ''LCA_a____Carbon footprint__1_lite_false_''
   \<and> cacheKey sample_rt ((sample_params (Fin 1))\<lparr>itemName := lit ''a'', year := lit ''_''\<rparr>)
     = lit ''LCA_a____Carbon footprint__1_lite_false_''"
  by (simp add: sample_defs sample_params_def prepare_defs cacheKey_def)

text \<open>
  C2, amended. Two normalized tuples, as lines 30 to 38 produce them, in which none of
  \<^verbatim>\<open>itemName\<close>, \<^verbatim>\<open>year\<close>, \<^verbatim>\<open>geography\<close>, \<^verbatim>\<open>metric\<close>, \<^verbatim>\<open>domain\<close>, \<^verbatim>\<open>mode\<close> contains an
  underscore, have the same key exactly when they are equal. \<^verbatim>\<open>numMatches\<close> is not
  restricted: it is \<open>NaN\<close> or a number that \<^verbatim>\<open>parseInt\<close> returns, and the proof uses of
  the number printing of the runtime only what the language guarantees of it on these
  numbers, that different numbers print differently and that no underscore is printed.
\<close>

theorem cacheKey_injective_without_delimiter:
  assumes "inj_on (numToString rt) (insert NaN (range to_double))"
    and "\<forall>n \<in> insert NaN (range to_double). cu CHR ''_'' \<notin> set (numToString rt n)"
    and "prepare rt a = Inr p"
    and "prepare rt b = Inr q"
    and "cu CHR ''_'' \<notin> set (itemName p @ year p @ geography p @ metric p @ domain p @ mode p)"
    and "cu CHR ''_'' \<notin> set (itemName q @ year q @ geography q @ metric q @ domain q @ mode q)"
  shows "(cacheKey rt p = cacheKey rt q) = (p = q)"
proof
  assume "p = q"
  then show "cacheKey rt p = cacheKey rt q" by simp
next
  assume e: "cacheKey rt p = cacheKey rt q"
  let ?u = "cu CHR ''_''"
  let ?b = "\<lambda>x::params. lit (if notEnglish x then ''true'' else ''false'')"
  let ?t8 = "\<lambda>x. ?b x @ ?u # unit x"
  let ?t7 = "\<lambda>x. mode x @ ?u # ?t8 x"
  let ?t6 = "\<lambda>x. numToString rt (numMatches x) @ ?u # ?t7 x"
  let ?t5 = "\<lambda>x. domain x @ ?u # ?t6 x"
  let ?t4 = "\<lambda>x. metric x @ ?u # ?t5 x"
  let ?t3 = "\<lambda>x. geography x @ ?u # ?t4 x"
  let ?t2 = "\<lambda>x. year x @ ?u # ?t3 x"
  have u: "?u \<notin> set (itemName p)" "?u \<notin> set (year p)"
      "?u \<notin> set (geography p)" "?u \<notin> set (metric p)"
      "?u \<notin> set (domain p)" "?u \<notin> set (mode p)"
    using assms(5) by simp_all
  have v: "?u \<notin> set (itemName q)" "?u \<notin> set (year q)"
      "?u \<notin> set (geography q)" "?u \<notin> set (metric q)"
      "?u \<notin> set (domain q)" "?u \<notin> set (mode q)"
    using assms(6) by simp_all
  note rp = prepare_numMatches_range [OF assms(3)]
  note rq = prepare_numMatches_range [OF assms(4)]
  have np: "?u \<notin> set (numToString rt (numMatches p))"
    using assms(2) rp by blast
  have nq: "?u \<notin> set (numToString rt (numMatches q))"
    using assms(2) rq by blast
  have bp: "?u \<notin> set (?b p)" and bq: "?u \<notin> set (?b q)"
    by simp_all
  from e have e1: "itemName p @ ?u # ?t2 p = itemName q @ ?u # ?t2 q"
    by (simp add: cacheKey_def lit_Cons)
  from split_at_delimiter [OF u(1) v(1) e1]
  have f1: "itemName p = itemName q" and e2: "?t2 p = ?t2 q" by simp_all
  from split_at_delimiter [OF u(2) v(2) e2]
  have f2: "year p = year q" and e3: "?t3 p = ?t3 q" by simp_all
  from split_at_delimiter [OF u(3) v(3) e3]
  have f3: "geography p = geography q" and e4: "?t4 p = ?t4 q" by simp_all
  from split_at_delimiter [OF u(4) v(4) e4]
  have f4: "metric p = metric q" and e5: "?t5 p = ?t5 q" by simp_all
  from split_at_delimiter [OF u(5) v(5) e5]
  have f5: "domain p = domain q" and e6: "?t6 p = ?t6 q" by simp_all
  from split_at_delimiter [OF np nq e6]
  have n: "numToString rt (numMatches p) = numToString rt (numMatches q)"
    and e7: "?t7 p = ?t7 q" by simp_all
  from inj_onD [OF assms(1) n rp rq] have f6: "numMatches p = numMatches q" .
  from split_at_delimiter [OF u(6) v(6) e7]
  have f7: "mode p = mode q" and e8: "?t8 p = ?t8 q" by simp_all
  from split_at_delimiter [OF bp bq e8]
  have b: "?b p = ?b q" and f9: "unit p = unit q" by simp_all
  from b have f8: "notEnglish p = notEnglish q"
    by (simp split: if_splits)
  from f1 f2 f3 f4 f5 f6 f7 f8 f9 show "p = q"
    by (intro params.equality) simp_all
qed

theorem cacheKey_injective_without_delimiter_witness:
  "prepare sample_rt (only_item (lit ''steel'') (JNum (Fin 2))) = Inr (sample_params (Fin 2))
   \<and> prepare sample_rt (only_item (lit ''steel'') (JNum (Fin 3))) = Inr (sample_params (Fin 3))
   \<and> cacheKey sample_rt (sample_params (Fin 2)) \<noteq> cacheKey sample_rt (sample_params (Fin 3))
   \<and> cacheKey sample_rt (sample_params (Fin 2)) = cacheKey sample_rt (sample_params (Fin 2))"
proof -
  let ?p = "sample_params (Fin 2)"
  let ?q = "sample_params (Fin 3)"
  have 1: "cu CHR ''_'' \<notin> set (itemName ?p @ year ?p @ geography ?p @ metric ?p @ domain ?p
                                  @ mode ?p)"
    by (simp add: sample_params_def)
  have 2: "cu CHR ''_'' \<notin> set (itemName ?q @ year ?q @ geography ?q @ metric ?q @ domain ?q
                                  @ mode ?q)"
    by (simp add: sample_params_def)
  have d: "?p \<noteq> ?q"
    by (simp add: sample_params_def)
  from cacheKey_injective_without_delimiter
         [OF sample_prints_inj sample_prints_no_underscore sample_prepare_2 sample_prepare_3 1 2]
       cacheKey_injective_without_delimiter
         [OF sample_prints_inj sample_prints_no_underscore sample_prepare_2 sample_prepare_2 1 1]
       d sample_prepare_2 sample_prepare_3
  show ?thesis by simp
qed

text \<open>
  C3. As stated the claim fails: the two matches of the sample body have ranks 1 and 3, the
  loop looks for ranks 1 and 2 only, and the row has 9 cells.
\<close>

theorem two_of_three_matches_counterexample:
  "prepare sample_rt (only_item (lit ''steel'') (JNum (Fin 3))) = Inr (sample_params (Fin 3))
   \<and> numMatches (sample_params (Fin 3)) = Fin 3
   \<and> JSON_parse sample_rt (lit body_ranks_1_3) = Inr data_ranks_1_3
   \<and> prop_of data_ranks_1_3 ''matches'' = JArr [match_steel, match_iron 3]
   \<and> fst (network_path sample_rt (responding 200 (lit body_ranks_1_3)) empty_world (lit ''k'')
            (Fin 3) (lit ''u''))
       = (Success,
          JArr [JArr [JStr (lit ''Match 1: steel''), JNum (Fin (5 / 2)),
                      JStr (lit ''kg CO2e/kg''), JNum (Fin 2020), JStr [], JStr [], JStr [],
                      JStr [], JStr (lit ''closest'')]])"
  by (simp add: sample_prepare_3)
     (simp add: sample_params_def network_path_def try_block_def Let_def sample_defs run_defs)

text \<open>
  C3, amended. A Success outcome with \<^verbatim>\<open>numMatches = 3\<close> and a \<^verbatim>\<open>matches\<close> array of two
  elements: the loop runs for the ranks 1 and 2 (its bound is the smaller of 3 and 2), and
  the row has eight cells for each of these two ranks that some match carries, plus one:
  17 cells when both ranks occur, 9 or 1 otherwise.
\<close>

theorem two_of_three_matches_row_length:
  assumes "fst (network_path rt sv w key (Fin 3) url) = (Success, v)"
    and "fetch sv url = Inr (code, body)"
    and "JSON_parse rt body = Inr data"
    and "prop_of data ''matches'' = JArr [m1, m2]"
  shows "\<exists>row. v = JArr [JArr row]
           \<and> length row =
               8 * length (filter (\<lambda>i. prop_of m1 ''rank'' = JNum (Fin (of_nat i))
                                        \<or> prop_of m2 ''rank'' = JNum (Fin (of_nat i))) [1, 2])
               + 1"
proof -
  let ?ms = "[m1, m2]"
  let ?has = "\<lambda>i. prop_of m1 ''rank'' = JNum (Fin (of_nat i))
                    \<or> prop_of m2 ''rank'' = JNum (Fin (of_nat i))"
  from network_path_Success_data [OF assms(1,2,3)] assms(4)
  obtain cells where loop: "format_loop rt (Fin 3) (JArr ?ms) 1 [] = Inr cells"
    and v: "v = JArr [JArr (cells @ [js_or (prop_of data ''explanation'') (JStr [])])]"
    by auto
  have s23: "Suc 2 = 3" by simp
  have b1: "js_le (Fin (of_nat 1)) (Math_min (Fin 3) (Fin (of_nat (length ?ms))))"
    and b2: "js_le (Fin (of_nat 2)) (Math_min (Fin 3) (Fin (of_nat (length ?ms))))"
    and b3: "\<not> js_le (Fin (of_nat 3)) (Math_min (Fin 3) (Fin (of_nat (length ?ms))))"
    by simp_all
  have step: "\<exists>c. format_loop rt (Fin 3) (JArr ?ms) (Suc i) (acc @ c) = Inr cells
                  \<and> length c = (if ?has i then 8 else 0)"
    if "js_le (Fin (of_nat i)) (Math_min (Fin 3) (Fin (of_nat (length ?ms))))"
      and "format_loop rt (Fin 3) (JArr ?ms) i acc = Inr cells" for i acc
  proof -
    from that obtain m where m: "find_rank ?ms i = Inr m"
      by (subst (asm) format_loop_array) (auto split: sum.splits)
    from find_rank_truthy [OF m] have tm: "truthy m = ?has i" by simp
    show ?thesis
    proof (cases "truthy m")
      case True
      from that(2) format_loop_found [OF that(1) m True, of rt acc]
      obtain c where c: "match_cells rt i m = Inr c"
        and "format_loop rt (Fin 3) (JArr ?ms) (Suc i) (acc @ c) = Inr cells"
        by (cases "match_cells rt i m") simp_all
      with match_cells_length [OF c] True tm show ?thesis by auto
    next
      case False
      from that(2) format_loop_missing [OF that(1) m False, of rt acc]
      have "format_loop rt (Fin 3) (JArr ?ms) (Suc i) (acc @ []) = Inr cells" by simp
      with False tm show ?thesis by (intro exI [of _ "[]"]) simp
    qed
  qed
  from step [OF b1 loop] obtain c1
    where l2: "format_loop rt (Fin 3) (JArr ?ms) 2 c1 = Inr cells"
      and n1: "length c1 = (if ?has 1 then 8 else 0)"
    by (auto simp only: append_Nil Suc_1)
  from step [OF b2 l2] obtain c2
    where l3: "format_loop rt (Fin 3) (JArr ?ms) 3 (c1 @ c2) = Inr cells"
      and n2: "length c2 = (if ?has 2 then 8 else 0)"
    by (auto simp only: s23)
  from l3 format_loop_stop [OF b3, of rt "c1 @ c2"] have "cells = c1 @ c2" by simp
  with n1 n2 v show ?thesis by auto
qed

theorem two_of_three_matches_row_length_witness:
  "\<exists>row. fst (network_path sample_rt (responding 200 (lit body_ranks_1_2)) empty_world
                  (lit ''k'') (Fin 3) (lit ''u''))
            = (Success, JArr [JArr row])
         \<and> length row = 17"
proof -
  have 5: "prop_of data_ranks_1_2 ''matches'' = JArr [match_steel, match_iron 2]"
    by (simp add: data_ranks_1_2_def prop_of_def)
  have r: "prop_of match_steel ''rank'' = JNum (Fin 1)"
      "prop_of (match_iron 2) ''rank'' = JNum (Fin 2)"
    by (simp_all add: match_steel_def match_iron_def prop_of_def)
  from two_of_three_matches_row_length [OF sample_network_3 sample_fetch sample_parse_1_2 5]
  show ?thesis
    by (simp add: sample_network_3 r)
qed

text \<open>
  C4. A call with \<^verbatim>\<open>numMatches = 2\<close> that reaches the request and receives a body with
  no \<^verbatim>\<open>error\<close>, no no-match message and two matches of ranks 1 and 2, in either order,
  each with a \<^verbatim>\<open>metric\<close> and a name that converts to a string: the outcome is Success and
  the row has 17 cells, the eight cells of the match of rank 1, the eight cells of the
  match of rank 2, and the explanation or the empty string. An optional field that is
  absent, or falsy, gives the empty string (\<^verbatim>\<open>field || ""\<close>). The function returns
  this table.
\<close>

theorem two_ranked_matches_row:
  assumes "prepare rt a = Inr p"
    and "numMatches p = Fin 2"
    and "cache_check rt w (cacheKey rt p) = None"
    and "fullUrl rt p = Inr url"
    and "fetch sv url = Inr (code, body)"
    and "JSON_parse rt body = Inr data"
    and "\<not> truthy (prop_of data ''error'')"
    and "\<not> is_no_match (prop_of data ''message'')"
    and "prop_of data ''matches'' = JArr [m1, m2] \<or> prop_of data ''matches'' = JArr [m2, m1]"
    and "prop_of m1 ''rank'' = JNum (Fin 1)"
    and "prop_of m2 ''rank'' = JNum (Fin 2)"
    and "toStringJS rt (prop_of m1 ''matched_name'') = Inr name1"
    and "toStringJS rt (prop_of m2 ''matched_name'') = Inr name2"
    and "prop_of m1 ''metric'' \<noteq> JUndefined" and "prop_of m1 ''metric'' \<noteq> JNull"
    and "prop_of m2 ''metric'' \<noteq> JUndefined" and "prop_of m2 ''metric'' \<noteq> JNull"
  shows "fst (network_path rt sv w (cacheKey rt p) (Fin 2) url) =
           (Success,
            JArr [JArr
              [JStr (lit ''Match 1: '' @ name1),
               prop_of (prop_of m1 ''metric'') ''value'',
               prop_of (prop_of m1 ''metric'') ''unit'',
               js_or (prop_of m1 ''year'') (JStr []),
               js_or (prop_of m1 ''geography'') (JStr []),
               js_or (prop_of m1 ''source'') (JStr []),
               js_or (prop_of m1 ''source_link'') (JStr []),
               js_or (prop_of m1 ''conversion_info'') (JStr []),
               JStr (lit ''Match 2: '' @ name2),
               prop_of (prop_of m2 ''metric'') ''value'',
               prop_of (prop_of m2 ''metric'') ''unit'',
               js_or (prop_of m2 ''year'') (JStr []),
               js_or (prop_of m2 ''geography'') (JStr []),
               js_or (prop_of m2 ''source'') (JStr []),
               js_or (prop_of m2 ''source_link'') (JStr []),
               js_or (prop_of m2 ''conversion_info'') (JStr []),
               js_or (prop_of data ''explanation'') (JStr [])]])
       \<and> fst (SCOPEGREEN rt sv a w)
           = Inr (snd (fst (network_path rt sv w (cacheKey rt p) (Fin 2) url)))"
proof -
  have r1: "prop_of m1 ''rank'' = JNum (Fin (of_nat 1))"
    and r2: "prop_of m2 ''rank'' = JNum (Fin (of_nat 2))"
    using assms(10,11) by simp_all
  have t: "truthy m1" "truthy m2"
    using assms(10,11) by (auto dest: rank_truthy)
  from assms(9) obtain ms where ms: "prop_of data ''matches'' = JArr ms" "length ms = 2"
    and f1: "find_rank ms 1 = Inr m1" and f2: "find_rank ms 2 = Inr m2"
  proof
    assume a: "prop_of data ''matches'' = JArr [m1, m2]"
    have "find_rank [m1, m2] 1 = Inr m1"
      using find_rank_first [OF r1] by simp
    moreover have "find_rank [m1, m2] 2 = Inr m2"
      using find_rank_second [OF r1, of 2 "[m2]"] find_rank_first [OF r2, of "[]"] by simp
    ultimately show thesis using a that [of "[m1, m2]"] by simp
  next
    assume a: "prop_of data ''matches'' = JArr [m2, m1]"
    have "find_rank [m2, m1] 1 = Inr m1"
      using find_rank_second [OF r2, of 1 "[m1]"] find_rank_first [OF r1, of "[]"] by simp
    moreover have "find_rank [m2, m1] 2 = Inr m2"
      using find_rank_first [OF r2] by simp
    ultimately show thesis using a that [of "[m2, m1]"] by simp
  qed
  from ms(2) have ne: "ms \<noteq> []" by auto
  have s23: "Suc 2 = 3" by simp
  have b1: "js_le (Fin (of_nat 1)) (Math_min (Fin 2) (Fin (of_nat (length ms))))"
    and b2: "js_le (Fin (of_nat 2)) (Math_min (Fin 2) (Fin (of_nat (length ms))))"
    and b3: "\<not> js_le (Fin (of_nat 3)) (Math_min (Fin 2) (Fin (of_nat (length ms))))"
    using ms(2) by simp_all
  note c1 = match_cells_formats [OF assms(12,14,15), of 1]
  note c2 = match_cells_formats [OF assms(13,16,17), of 2]
  let ?c1 = "[JStr (lit ''Match '' @ lit (show_nat 1) @ lit '': '' @ name1),
              prop_of (prop_of m1 ''metric'') ''value'',
              prop_of (prop_of m1 ''metric'') ''unit'',
              js_or (prop_of m1 ''year'') (JStr []),
              js_or (prop_of m1 ''geography'') (JStr []),
              js_or (prop_of m1 ''source'') (JStr []),
              js_or (prop_of m1 ''source_link'') (JStr []),
              js_or (prop_of m1 ''conversion_info'') (JStr [])]"
  let ?c2 = "[JStr (lit ''Match '' @ lit (show_nat 2) @ lit '': '' @ name2),
              prop_of (prop_of m2 ''metric'') ''value'',
              prop_of (prop_of m2 ''metric'') ''unit'',
              js_or (prop_of m2 ''year'') (JStr []),
              js_or (prop_of m2 ''geography'') (JStr []),
              js_or (prop_of m2 ''source'') (JStr []),
              js_or (prop_of m2 ''source_link'') (JStr []),
              js_or (prop_of m2 ''conversion_info'') (JStr [])]"
  have l3: "format_loop rt (Fin 2) (JArr ms) 3 (?c1 @ ?c2) = Inr (?c1 @ ?c2)"
    by (rule format_loop_stop [OF b3])
  have l2: "format_loop rt (Fin 2) (JArr ms) 2 ?c1 = Inr (?c1 @ ?c2)"
    using format_loop_found [OF b2 f2 t(2), of rt ?c1, unfolded s23] l3
    by (simp only: c2 sum.case)
  have l1: "format_loop rt (Fin 2) (JArr ms) 1 [] = Inr (?c1 @ ?c2)"
    using format_loop_found [OF b1 f1 t(1), of rt "[]", unfolded Suc_1 append_Nil] l2
    by (simp only: c1 sum.case)
  have sh: "lit ''Match '' @ lit (show_nat 1) @ lit '': '' @ name1 = lit ''Match 1: '' @ name1"
      "lit ''Match '' @ lit (show_nat 2) @ lit '': '' @ name2 = lit ''Match 2: '' @ name2"
    by (simp_all add: show_nat.simps digit_char_def lit_def)
  have n: "fst (network_path rt sv w (cacheKey rt p) (Fin 2) url) =
             (Success, JArr [JArr ((?c1 @ ?c2)
                @ [js_or (prop_of data ''explanation'') (JStr [])])])"
    by (rule network_path_matches [OF assms(5,6,7,8) ms(1) ne l1])
  have s: "fst (SCOPEGREEN rt sv a w)
           = Inr (snd (fst (network_path rt sv w (cacheKey rt p) (Fin 2) url)))"
    by (simp add: SCOPEGREEN_miss [OF assms(1,3)] after_miss_built [OF assms(4)] assms(2))
  from n [unfolded sh] s show ?thesis
    by simp
qed

theorem two_ranked_matches_row_witness:
  "fst (network_path sample_rt (responding 200 (lit body_ranks_1_2)) empty_world
          (lit ''LCA_steel___Carbon footprint__2_lite_false_'') (Fin 2)
          (lit ''https://scopegreen-main-1a948ab.d2.zuplo.dev/api/metrics/search?item_name=steel&metric=Carbon%20footprint&mode=lite&web_mode=false&num_matches=2&not_english=false''))
     = (Success,
        JArr [JArr [JStr (lit ''Match 1: steel''), JNum (Fin (5 / 2)), JStr (lit ''kg CO2e/kg''),
                    JNum (Fin 2020), JStr [], JStr [], JStr [], JStr [],
                    JStr (lit ''Match 2: iron''), JNum (Fin (19 / 10)),
                    JStr (lit ''kg CO2e/kg''), JStr [], JStr [], JStr [], JStr [], JStr [],
                    JStr (lit ''closest'')]])
   \<and> fst (SCOPEGREEN sample_rt (responding 200 (lit body_ranks_1_2))
            (only_item (lit ''steel'') (JNum (Fin 2))) empty_world)
     = Inr (JArr [JArr [JStr (lit ''Match 1: steel''), JNum (Fin (5 / 2)),
                        JStr (lit ''kg CO2e/kg''), JNum (Fin 2020), JStr [], JStr [], JStr [],
                        JStr [], JStr (lit ''Match 2: iron''), JNum (Fin (19 / 10)),
                        JStr (lit ''kg CO2e/kg''), JStr [], JStr [], JStr [], JStr [], JStr [],
                        JStr (lit ''closest'')]])"
proof -
  have 2: "numMatches (sample_params (Fin 2)) = Fin 2"
    by (simp add: sample_params_def)
  have 7: "\<not> truthy (prop_of data_ranks_1_2 ''error'')"
    by (simp add: data_ranks_1_2_def prop_of_def lit_def cu_def)
  have 8: "\<not> is_no_match (prop_of data_ranks_1_2 ''message'')"
    by (simp add: data_ranks_1_2_def prop_of_def is_no_match_def lit_def cu_def)
  have "prop_of data_ranks_1_2 ''matches'' = JArr [match_steel, match_iron 2]"
    by (simp add: data_ranks_1_2_def prop_of_def)
  then have 9: "prop_of data_ranks_1_2 ''matches'' = JArr [match_steel, match_iron 2]
                 \<or> prop_of data_ranks_1_2 ''matches'' = JArr [match_iron 2, match_steel]"
    by simp
  have 10: "prop_of match_steel ''rank'' = JNum (Fin 1)"
    by (simp add: match_steel_def prop_of_def)
  have 11: "prop_of (match_iron 2) ''rank'' = JNum (Fin 2)"
    by (simp add: match_iron_def prop_of_def)
  have 12: "toStringJS sample_rt (prop_of match_steel ''matched_name'') = Inr (lit ''steel'')"
    by (simp add: match_steel_def prop_of_def lit_def cu_def)
  have 13: "toStringJS sample_rt (prop_of (match_iron 2) ''matched_name'') = Inr (lit ''iron'')"
    by (simp add: match_iron_def prop_of_def lit_def cu_def)
  have 14: "prop_of match_steel ''metric'' \<noteq> JUndefined"
    and 15: "prop_of match_steel ''metric'' \<noteq> JNull"
    by (simp_all add: match_steel_def prop_of_def lit_def cu_def)
  have 16: "prop_of (match_iron 2) ''metric'' \<noteq> JUndefined"
    and 17: "prop_of (match_iron 2) ''metric'' \<noteq> JNull"
    by (simp_all add: match_iron_def prop_of_def lit_def cu_def)
  note t = two_ranked_matches_row [OF sample_prepare_2 2 sample_miss sample_url_2 sample_fetch
      sample_parse_1_2 7 8 9 10 11 12 13 14 15 16 17]
  have c: "JArr [JArr
              [JStr (lit ''Match 1: '' @ lit ''steel''),
               prop_of (prop_of match_steel ''metric'') ''value'',
               prop_of (prop_of match_steel ''metric'') ''unit'',
               js_or (prop_of match_steel ''year'') (JStr []),
               js_or (prop_of match_steel ''geography'') (JStr []),
               js_or (prop_of match_steel ''source'') (JStr []),
               js_or (prop_of match_steel ''source_link'') (JStr []),
               js_or (prop_of match_steel ''conversion_info'') (JStr []),
               JStr (lit ''Match 2: '' @ lit ''iron''),
               prop_of (prop_of (match_iron 2) ''metric'') ''value'',
               prop_of (prop_of (match_iron 2) ''metric'') ''unit'',
               js_or (prop_of (match_iron 2) ''year'') (JStr []),
               js_or (prop_of (match_iron 2) ''geography'') (JStr []),
               js_or (prop_of (match_iron 2) ''source'') (JStr []),
               js_or (prop_of (match_iron 2) ''source_link'') (JStr []),
               js_or (prop_of (match_iron 2) ''conversion_info'') (JStr []),
               js_or (prop_of data_ranks_1_2 ''explanation'') (JStr [])]]
           = JArr [JArr [JStr (lit ''Match 1: steel''), JNum (Fin (5 / 2)),
                    JStr (lit ''kg CO2e/kg''),
                    JNum (Fin 2020), JStr [], JStr [], JStr [], JStr [],
                    JStr (lit ''Match 2: iron''), JNum (Fin (19 / 10)),
                    JStr (lit ''kg CO2e/kg''), JStr [], JStr [], JStr [], JStr [], JStr [],
                    JStr (lit ''closest'')]]"
    by (simp add: match_steel_def match_iron_def data_ranks_1_2_def prop_of_def js_or_def
          lit_def cu_def)
  from t [unfolded c sample_key_2]
  show ?thesis by simp
qed

text \<open>
  C5. A response whose status code is not 429 and whose body is not valid JSON: the function
  returns the one-row table whose only cell is the raw body text, unchanged. (The call is
  one that reaches the request: preparing the parameters and building the URL threw
  nothing, and the cache gave nothing.)
\<close>

theorem malformed_body_passthrough:
  assumes "prepare rt a = Inr p"
    and "cache_check rt w (cacheKey rt p) = None"
    and "fullUrl rt p = Inr url"
    and "fetch sv url = Inr (responseCode, responseText)"
    and "responseCode \<noteq> 429"
    and "JSON_parse rt responseText = Inl m"
  shows "fst (SCOPEGREEN rt sv a w) = Inr (JArr [JArr [JStr responseText]])"
  using assms(5,6)
  by (simp add: SCOPEGREEN_miss [OF assms(1,2)] after_miss_built [OF assms(3)]
        network_path_fetched [OF assms(4)] process_response_def table1_def)

theorem malformed_body_passthrough_witness:
  "fst (SCOPEGREEN sample_rt (responding 502 (lit ''<html>Bad Gateway</html>''))
          (only_item (lit ''steel'') JUndefined) empty_world)
     = Inr (JArr [JArr [JStr (lit ''<html>Bad Gateway</html>'')]])"
proof -
  have 3: "(502::int) \<noteq> 429" by simp
  have "map_of sample_texts (lit ''<html>Bad Gateway</html>'') = None"
    by (simp add: sample_defs lit_def cu_def)
  from sample_unparsed [OF this] obtain m
    where 4: "JSON_parse sample_rt (lit ''<html>Bad Gateway</html>'') = Inl m" ..
  show ?thesis
    by (rule malformed_body_passthrough
          [OF sample_prepare_1 sample_miss sample_url_1 sample_fetch 3 4])
qed

text \<open>
  C6. When the cache holds a text under the derived key, the function returns what the text
  parses to and leaves the world as it was, so no fetch is made; when the text does not
  parse, nothing is thrown by the parse and the function goes on as after a miss: it
  builds the URL and returns what the network path returns, which starts with a fetch.
  (\<^verbatim>\<open>JSON.parse\<close> throws on the empty text, which the function takes for a miss without
  parsing it.)
\<close>

theorem cache_hit_skips_network:
  assumes "JSON_parse rt [] = Inl m0"
    and "prepare rt a = Inr p"
    and "cache_get w (cacheKey rt p) = Some body"
  shows "SCOPEGREEN rt sv a w =
           (case JSON_parse rt body of
              Inr v \<Rightarrow> (Inr v, w)
            | Inl m \<Rightarrow> after_miss rt sv w (cacheKey rt p) p)
         \<and> (\<forall>url. fullUrl rt p = Inr url \<longrightarrow>
              after_miss rt sv w (cacheKey rt p) p =
                (Inr (snd (fst (network_path rt sv w (cacheKey rt p) (numMatches p) url))),
                 snd (network_path rt sv w (cacheKey rt p) (numMatches p) url))
              \<and> (\<exists>es. trace (snd (network_path rt sv w (cacheKey rt p) (numMatches p) url))
                        = trace w @ Fetch url # es))"
proof
  show "SCOPEGREEN rt sv a w =
           (case JSON_parse rt body of
              Inr v \<Rightarrow> (Inr v, w)
            | Inl m \<Rightarrow> after_miss rt sv w (cacheKey rt p) p)"
    using assms
    by (cases "body = []")
       (auto simp: SCOPEGREEN_def cache_check_def split: option.splits sum.splits)
  show "\<forall>url. fullUrl rt p = Inr url \<longrightarrow>
              after_miss rt sv w (cacheKey rt p) p =
                (Inr (snd (fst (network_path rt sv w (cacheKey rt p) (numMatches p) url))),
                 snd (network_path rt sv w (cacheKey rt p) (numMatches p) url))
              \<and> (\<exists>es. trace (snd (network_path rt sv w (cacheKey rt p) (numMatches p) url))
                        = trace w @ Fetch url # es)"
    using network_path_trace by (auto simp: after_miss_built)
qed

theorem cache_hit_skips_network_witness:
  "SCOPEGREEN sample_rt timing_out (only_item (lit ''steel'') (JNum (Fin 2)))
       (cached_world (lit ''LCA_steel___Carbon footprint__2_lite_false_'') (lit row_text))
     = (Inr row_table,
        cached_world (lit ''LCA_steel___Carbon footprint__2_lite_false_'') (lit row_text))
   \<and> fst (SCOPEGREEN sample_rt (responding 200 (lit body_ranks_1_2))
             (only_item (lit ''steel'') (JNum (Fin 2)))
             (cached_world (lit ''LCA_steel___Carbon footprint__2_lite_false_'')
                (lit ''[[oops'')))
     = Inr row_table"
proof -
  let ?k = "lit ''LCA_steel___Carbon footprint__2_lite_false_''"
  let ?p = "sample_params (Fin 2)"
  have e: "JSON_parse sample_rt [] = Inl (lit ''Unexpected end of JSON input'')"
    by (simp add: sample_defs lit_def cu_def)
  have hit: "cache_get (cached_world ?k (lit row_text)) (cacheKey sample_rt ?p)
               = Some (lit row_text)"
    by (simp add: cache_get_def cached_world_def sample_key_2)
  have bad: "cache_get (cached_world ?k (lit ''[[oops'')) (cacheKey sample_rt ?p)
               = Some (lit ''[[oops'')"
    by (simp add: cache_get_def cached_world_def sample_key_2)
  have p1: "JSON_parse sample_rt (lit row_text) = Inr row_table"
    by (simp add: sample_defs lit_def cu_def)
  have "map_of sample_texts (lit ''[[oops'') = None"
    by (simp add: sample_defs lit_def cu_def)
  from sample_unparsed [OF this] obtain m
    where p2: "JSON_parse sample_rt (lit ''[[oops'') = Inl m" ..
  have n: "fst (network_path sample_rt (responding 200 (lit body_ranks_1_2))
                  (cached_world ?k (lit ''[[oops'')) ?k (Fin 2) url)
             = (Success, row_table)" for url
    by (simp add: network_path_def try_block_def Let_def sample_defs run_defs)
  have nm: "numMatches ?p = Fin 2"
    by (simp add: sample_params_def)
  note h = cache_hit_skips_network [OF e sample_prepare_2 hit, of timing_out]
  note b = cache_hit_skips_network
             [OF e sample_prepare_2 bad, of "responding 200 (lit body_ranks_1_2)"]
  from h [THEN conjunct1]
  have 1: "SCOPEGREEN sample_rt timing_out (only_item (lit ''steel'') (JNum (Fin 2)))
             (cached_world ?k (lit row_text))
           = (Inr row_table, cached_world ?k (lit row_text))"
    by (simp add: p1)
  from b [THEN conjunct1] b [THEN conjunct2, rule_format, OF sample_url_2, THEN conjunct1]
  have 2: "fst (SCOPEGREEN sample_rt (responding 200 (lit body_ranks_1_2))
                  (only_item (lit ''steel'') (JNum (Fin 2)))
                  (cached_world ?k (lit ''[[oops'')))
           = Inr row_table"
    by (simp add: p2 n nm sample_key_2)
  from 1 2 show ?thesis by (rule conjI)
qed



text \<open>
  C8. As stated the claim fails for the exceptions raised inside the inner \<^verbatim>\<open>try\<close>
  blocks, which their own \<^verbatim>\<open>catch\<close> answers without looking at the description. A
  gateway answers with status 504 and the body \<^verbatim>\<open>Gateway timeout\<close>; \<^verbatim>\<open>JSON.parse\<close> at
  line 115 throws a \<^verbatim>\<open>SyntaxError\<close> whose description quotes the body and so contains
  \<^verbatim>\<open>timeout\<close>; the \<^verbatim>\<open>catch\<close> of line 118 returns the raw body, not the time-out row.
\<close>

theorem timeout_in_parse_error_counterexample:
  "JSON_parse sample_rt (lit ''Gateway timeout'')
     = Inl (lit ''Unexpected token '' @ [39, cu CHR ''G'', 39] @ lit '', '' @ [34]
            @ lit ''Gateway timeout'' @ [34] @ lit '' is not valid JSON'')
   \<and> str_includes
       (error_toString sample_rt
          (SyntaxError (lit ''Unexpected token '' @ [39, cu CHR ''G'', 39] @ lit '', '' @ [34]
                        @ lit ''Gateway timeout'' @ [34] @ lit '' is not valid JSON'')))
       (lit ''timeout'')
   \<and> SCOPEGREEN sample_rt (responding 504 (lit ''Gateway timeout''))
       (only_item (lit ''steel'') JUndefined) empty_world
     = (Inr (JArr [JArr [JStr (lit ''Gateway timeout'')]]),
        empty_world\<lparr>trace := [Fetch (lit ''https://scopegreen-main-1a948ab.d2.zuplo.dev/api/metrics/search?item_name=steel&metric=Carbon%20footprint&mode=lite&web_mode=false&num_matches=1&not_english=false'')]\<rparr>)
   \<and> JArr [JArr [JStr (lit ''Gateway timeout'')]]
     \<noteq> JArr [JArr [JStr (lit ''Error: API request timed out. Try simplifying your query.'')]]"
proof -
  have 1: "JSON_parse sample_rt (lit ''Gateway timeout'')
     = Inl (lit ''Unexpected token '' @ [39, cu CHR ''G'', 39] @ lit '', '' @ [34]
            @ lit ''Gateway timeout'' @ [34] @ lit '' is not valid JSON'')"
    by (simp add: sample_defs lit_def cu_def)
  have 2: "str_includes
       (error_toString sample_rt
          (SyntaxError (lit ''Unexpected token '' @ [39, cu CHR ''G'', 39] @ lit '', '' @ [34]
                        @ lit ''Gateway timeout'' @ [34] @ lit '' is not valid JSON'')))
       (lit ''timeout'')"
    by (simp add: lit_def cu_def)
  have 3: "process_response sample_rt sv w key n 504 (lit ''Gateway timeout'')
             = (Inr (Malformed, JArr [JArr [JStr (lit ''Gateway timeout'')]]), w)"
    for sv w key n
    by (simp add: process_response_def 1 table1_def)
  have 4: "SCOPEGREEN sample_rt (responding 504 (lit ''Gateway timeout''))
       (only_item (lit ''steel'') JUndefined) empty_world
     = (Inr (JArr [JArr [JStr (lit ''Gateway timeout'')]]),
        empty_world\<lparr>trace := [Fetch (lit ''https://scopegreen-main-1a948ab.d2.zuplo.dev/api/metrics/search?item_name=steel&metric=Carbon%20footprint&mode=lite&web_mode=false&num_matches=1&not_english=false'')]\<rparr>)"
    by (simp add: SCOPEGREEN_miss [OF sample_prepare_1 sample_miss]
          after_miss_built [OF sample_url_1] network_path_fetched [OF sample_fetch]
          3 trace_empty_world)
  have 5: "JArr [JArr [JStr (lit ''Gateway timeout'')]]
     \<noteq> JArr [JArr [JStr (lit ''Error: API request timed out. Try simplifying your query.'')]]"
    by simp
  from 1 2 4 5 show ?thesis by (intro conjI)
qed

text \<open>
  C8, amended. The handler of lines 198 to 206 sees the exceptions that leave the
  \<^verbatim>\<open>try\<close> block of lines 88 to 197: what the fetch throws, and the \<^verbatim>\<open>TypeError\<close>s
  raised while classifying or formatting outside the inner blocks. For each of them whose
  description contains \<^verbatim>\<open>timeout\<close> or \<^verbatim>\<open>execution time\<close> the function returns the
  one-cell row with the time-out message instead of propagating it. An exception raised
  inside an inner \<^verbatim>\<open>try\<close> block never reaches the handler, whatever its description: a
  body that \<^verbatim>\<open>JSON.parse\<close> rejects gives the generic rate-limit message when the status
  is 429 and the raw body otherwise. (The call is one that reaches the request.)
\<close>

theorem timeout_exception_row:
  assumes "prepare rt a = Inr p"
    and "cache_check rt w (cacheKey rt p) = None"
    and "fullUrl rt p = Inr url"
  shows "(\<forall>e. fst (try_block rt sv w (cacheKey rt p) (numMatches p) url) = Inl e
              \<and> (str_includes (error_toString rt e) (lit ''timeout'')
                 \<or> str_includes (error_toString rt e) (lit ''execution time''))
            \<longrightarrow> fst (SCOPEGREEN rt sv a w)
                  = Inr (JArr [JArr [JStr (lit ''Error: API request timed out. Try simplifying your query.'')]]))
       \<and> (\<forall>e. fetch sv url = Inl e
            \<longrightarrow> fst (try_block rt sv w (cacheKey rt p) (numMatches p) url) = Inl e)
       \<and> (\<forall>e. fst (try_block rt sv w (cacheKey rt p) (numMatches p) url) = Inl e
            \<longrightarrow> fetch sv url = Inl e \<or> is_TypeError e)
       \<and> (\<forall>code body m. fetch sv url = Inr (code, body) \<and> JSON_parse rt body = Inl m
            \<longrightarrow> fst (SCOPEGREEN rt sv a w)
                  = Inr (JArr [JArr [JStr (if code = 429
                                           then lit ''Rate limit exceeded: Please try again later.''
                                           else body)]]))"
proof -
  note s = SCOPEGREEN_miss [OF assms(1,2)] after_miss_built [OF assms(3)]
  have 1: "fst (SCOPEGREEN rt sv a w)
             = Inr (JArr [JArr [JStr (lit ''Error: API request timed out. Try simplifying your query.'')]])"
    if t: "fst (try_block rt sv w (cacheKey rt p) (numMatches p) url) = Inl e"
      and i: "str_includes (error_toString rt e) (lit ''timeout'')
              \<or> str_includes (error_toString rt e) (lit ''execution time'')" for e
  proof -
    obtain w' where "try_block rt sv w (cacheKey rt p) (numMatches p) url = (Inl e, w')"
      using t by (cases "try_block rt sv w (cacheKey rt p) (numMatches p) url") simp
    with i show ?thesis
      by (auto simp: s network_path_def catch_block_def table1_def)
  qed
  have 2: "fst (try_block rt sv w (cacheKey rt p) (numMatches p) url) = Inl e"
    if "fetch sv url = Inl e" for e
    using that by (simp add: try_block_fetch_error)
  have 3: "fetch sv url = Inl e \<or> is_TypeError e"
    if "fst (try_block rt sv w (cacheKey rt p) (numMatches p) url) = Inl e" for e
    using that by (rule try_block_error)
  have 4: "fst (SCOPEGREEN rt sv a w)
             = Inr (JArr [JArr [JStr (if code = 429
                                      then lit ''Rate limit exceeded: Please try again later.''
                                      else body)]])"
    if "fetch sv url = Inr (code, body)" and "JSON_parse rt body = Inl m" for code body m
    by (simp add: s network_path_unparsed [OF that])
  from 1 2 3 4 show ?thesis by blast
qed

theorem timeout_exception_row_witness:
  "fst (SCOPEGREEN sample_rt timing_out (only_item (lit ''steel'') JUndefined) empty_world)
     = Inr (JArr [JArr [JStr (lit ''Error: API request timed out. Try simplifying your query.'')]])
   \<and> fst (SCOPEGREEN sample_rt (responding 429 (lit ''Request timeout''))
            (only_item (lit ''steel'') JUndefined) empty_world)
     = Inr (JArr [JArr [JStr (lit ''Rate limit exceeded: Please try again later.'')]])"
proof -
  let ?e = "HostError (lit ''Exception: Request timeout'')"
  note t = timeout_exception_row [OF sample_prepare_1 sample_miss sample_url_1, of timing_out]
  note u = timeout_exception_row [OF sample_prepare_1 sample_miss sample_url_1,
      of "responding 429 (lit ''Request timeout'')"]
  have f: "fetch timing_out url = Inl ?e" for url
    by (simp add: timing_out_def)
  from t [THEN conjunct2, THEN conjunct1, rule_format, OF f]
  have b: "fst (try_block sample_rt timing_out empty_world
                  (cacheKey sample_rt (sample_params (Fin 1)))
                  (numMatches (sample_params (Fin 1)))
                  (lit ''https://scopegreen-main-1a948ab.d2.zuplo.dev/api/metrics/search?item_name=steel&metric=Carbon%20footprint&mode=lite&web_mode=false&num_matches=1&not_english=false''))
           = Inl ?e" .
  have i: "str_includes (error_toString sample_rt ?e) (lit ''timeout'')
           \<or> str_includes (error_toString sample_rt ?e) (lit ''execution time'')"
    by (simp add: lit_def cu_def)
  from t [THEN conjunct1, rule_format, OF conjI, OF b i]
  have 1: "fst (SCOPEGREEN sample_rt timing_out (only_item (lit ''steel'') JUndefined)
                  empty_world)
     = Inr (JArr [JArr [JStr (lit ''Error: API request timed out. Try simplifying your query.'')]])" .
  have "map_of sample_texts (lit ''Request timeout'') = None"
    by (simp add: sample_defs lit_def cu_def)
  from sample_unparsed [OF this] obtain m
    where m: "JSON_parse sample_rt (lit ''Request timeout'') = Inl m" ..
  from u [THEN conjunct2, THEN conjunct2, THEN conjunct2, rule_format, OF conjI,
      OF sample_fetch m]
  have 2: "fst (SCOPEGREEN sample_rt (responding 429 (lit ''Request timeout''))
            (only_item (lit ''steel'') JUndefined) empty_world)
     = Inr (JArr [JArr [JStr (lit ''Rate limit exceeded: Please try again later.'')]])"
    by simp
  from 1 2 show ?thesis by (rule conjI)
qed

text \<open>
  C9. A truthy \<^verbatim>\<open>numMatches\<close> argument that \<^verbatim>\<open>parseInt\<close> cannot read becomes \<open>NaN\<close>; the
  loop bound is then \<open>NaN\<close>, no match is formatted, and a Success outcome returns a row of
  one cell, the explanation or the empty string. The query string has no
  \<^verbatim>\<open>num_matches\<close> parameter: it consists of the other segments only, and the text
  \<^verbatim>\<open>&num_matches=\<close> does not occur in it.
\<close>

theorem unparsable_numMatches_one_cell:
  assumes "truthy (raw_numMatches a)"
    and "parseInt rt (raw_numMatches a) = Inr NaN"
    and "prepare rt a = Inr p"
  shows "numMatches p = NaN
       \<and> (fst (network_path rt sv w key (numMatches p) url) = (Success, v) \<longrightarrow>
            (\<exists>code body data. fetch sv url = Inr (code, body)
               \<and> JSON_parse rt body = Inr data
               \<and> v = JArr [JArr [js_or (prop_of data ''explanation'') (JStr [])]]))
       \<and> queryParams rt p =
            and_then (encodeURIComponent (itemName p)) (\<lambda>s0.
            and_then (query_segment (year p \<noteq> []) ''year'' (year p)) (\<lambda>s1.
            and_then (query_segment (geography p \<noteq> []) ''geography'' (geography p)) (\<lambda>s2.
            and_then (query_segment (metric p \<noteq> []) ''metric'' (metric p)) (\<lambda>s3.
            and_then (query_segment (mode p \<noteq> []) ''mode'' (mode p)) (\<lambda>s4.
            and_then (query_segment (domain p \<noteq> []) ''domain'' (domain p)) (\<lambda>s6.
            and_then (query_segment True ''not_english''
                        (lit (if notEnglish p then ''true'' else ''false''))) (\<lambda>s7.
            and_then (query_segment (unit p \<noteq> []) ''unit'' (unit p)) (\<lambda>s8.
              Inr (lit ''item_name='' @ s0 @ s1 @ s2 @ s3 @ s4 @ lit ''&web_mode=false''
                     @ s6 @ s7 @ s8)))))))))
       \<and> (\<forall>q. queryParams rt p = Inr q \<longrightarrow> \<not> str_includes q (lit ''&num_matches=''))"
proof -
  have n: "numMatches p = NaN"
    using prepare_numMatches [OF assms(3)] assms(1,2) by simp
  then have f: "\<not> truthy (JNum (numMatches p))"
    by simp
  have s: "fst (network_path rt sv w key (numMatches p) url) = (Success, v) \<longrightarrow>
            (\<exists>code body data. fetch sv url = Inr (code, body)
               \<and> JSON_parse rt body = Inr data
               \<and> v = JArr [JArr [js_or (prop_of data ''explanation'') (JStr [])]])"
  proof
    assume ok: "fst (network_path rt sv w key (numMatches p) url) = (Success, v)"
    from network_path_Success [OF ok] obtain code body data
      where fe: "fetch sv url = Inr (code, body)"
        and d: "JSON_parse rt body = Inr data"
        and h: "fst (handle_data rt sv w key (numMatches p) body data) = Inr (Success, v)"
      by blast
    from handle_data_Success [OF h] n obtain len cells
      where "toNumber rt (prop_of (prop_of data ''matches'') ''length'') = Inr len"
        and "format_loop rt NaN (prop_of data ''matches'') 1 [] = Inr cells"
        and "v = JArr [JArr (cells @ [js_or (prop_of data ''explanation'') (JStr [])])]"
      by auto
    then have "v = JArr [JArr [js_or (prop_of data ''explanation'') (JStr [])]]"
      by (simp add: format_loop_NaN)
    with fe d show "\<exists>code body data. fetch sv url = Inr (code, body)
               \<and> JSON_parse rt body = Inr data
               \<and> v = JArr [JArr [js_or (prop_of data ''explanation'') (JStr [])]]"
      by blast
  qed
  note q = queryParams_without_num_matches [OF f, of rt]
  have i: "\<forall>q. queryParams rt p = Inr q \<longrightarrow> \<not> str_includes q (lit ''&num_matches='')"
    using no_num_matches_segment [OF f] by blast
  from n s q i show ?thesis by blast
qed

theorem unparsable_numMatches_one_cell_witness:
  "prepare sample_rt (only_item (lit ''steel'') (JStr (lit ''abc''))) = Inr (sample_params NaN)
   \<and> numMatches (sample_params NaN) = NaN
   \<and> fst (network_path sample_rt (responding 200 (lit body_ranks_1_2)) empty_world (lit ''k'')
            (numMatches (sample_params NaN)) (lit ''u''))
       = (Success, JArr [JArr [JStr (lit ''closest'')]])
   \<and> queryParams sample_rt (sample_params NaN)
       = Inr (lit ''item_name=steel&metric=Carbon%20footprint&mode=lite&web_mode=false&not_english=false'')
   \<and> \<not> str_includes (lit ''item_name=steel&metric=Carbon%20footprint&mode=lite&web_mode=false&not_english=false'')
         (lit ''&num_matches='')"
proof -
  let ?a = "only_item (lit ''steel'') (JStr (lit ''abc''))"
  have 1: "truthy (raw_numMatches ?a)"
    by (simp add: only_item_def lit_def)
  have 2: "parseInt sample_rt (raw_numMatches ?a) = Inr NaN"
    by (simp add: only_item_def parseInt_def parseInt_string_def is_space_def is_digit_in_def
          digit_val_def Let_def lit_def cu_def)
  note t = unparsable_numMatches_one_cell [OF 1 2 sample_prepare_abc]
  have n: "fst (network_path sample_rt (responding 200 (lit body_ranks_1_2)) empty_world
                  (lit ''k'') NaN (lit ''u'')) = (Success, JArr [JArr [JStr (lit ''closest'')]])"
    by (simp add: network_path_def try_block_def Let_def sample_defs run_defs)
  have q: "queryParams sample_rt (sample_params NaN)
       = Inr (lit ''item_name=steel&metric=Carbon%20footprint&mode=lite&web_mode=false&not_english=false'')"
    by (subst t [THEN conjunct2, THEN conjunct2, THEN conjunct1])
       (simp add: sample_params_def url_defs)
  from t [THEN conjunct2, THEN conjunct2, THEN conjunct2, rule_format, OF q]
  have i: "\<not> str_includes (lit ''item_name=steel&metric=Carbon%20footprint&mode=lite&web_mode=false&not_english=false'')
         (lit ''&num_matches='')" .
  from t [THEN conjunct1] n q i sample_prepare_abc show ?thesis by simp
qed

text \<open>
  C10. Lines 88 to 206, the \<^verbatim>\<open>try\<close> statement, return on every path (rate limit,
  malformed body, API error, no match, success, unexpected shape, caught exception) an
  array of exactly one element, itself an array: a table of one row. So a call that the
  cache does not answer returns such a table whenever it reaches line 88, and every value
  that it returns is one. What keeps a call from line 88 is the \<^verbatim>\<open>URIError\<close> of
  \<^verbatim>\<open>encodeURIComponent\<close> in lines 61 to 72, which are outside the \<^verbatim>\<open>try\<close>: then the
  call returns nothing, the exception leaves the function and no request is made.
\<close>

theorem one_row_table_on_network_path:
  assumes "prepare rt a = Inr p"
    and "cache_check rt w (cacheKey rt p) = None"
  shows "(\<exists>row. snd (fst (network_path rt sv w key n url)) = JArr [JArr row])
       \<and> (\<forall>url. fullUrl rt p = Inr url \<longrightarrow>
            (\<exists>row. SCOPEGREEN rt sv a w =
                     (Inr (JArr [JArr row]),
                      snd (network_path rt sv w (cacheKey rt p) (numMatches p) url))))
       \<and> (\<forall>v. fst (SCOPEGREEN rt sv a w) = Inr v \<longrightarrow> (\<exists>row. v = JArr [JArr row]))
       \<and> (\<forall>e. fullUrl rt p = Inl e \<longrightarrow> e = URIError \<and> SCOPEGREEN rt sv a w = (Inl e, w))"
proof -
  note miss = SCOPEGREEN_miss [OF assms]
  have 1: "\<exists>row. snd (fst (network_path rt sv w key n url)) = JArr [JArr row]"
    by (rule network_path_table)
  have 2: "\<exists>row. SCOPEGREEN rt sv a w =
                   (Inr (JArr [JArr row]),
                    snd (network_path rt sv w (cacheKey rt p) (numMatches p) url))"
    if "fullUrl rt p = Inr url" for url
    using network_path_table [of rt sv w "cacheKey rt p" "numMatches p" url]
    by (auto simp: miss after_miss_built [OF that])
  have 4: "e = URIError \<and> SCOPEGREEN rt sv a w = (Inl e, w)" if "fullUrl rt p = Inl e" for e
    using that by (simp add: miss after_miss_thrown fullUrl_error)
  have 3: "\<exists>row. v = JArr [JArr row]" if "fst (SCOPEGREEN rt sv a w) = Inr v" for v
  proof (cases "fullUrl rt p")
    case (Inl e)
    with 4 that show ?thesis by simp
  next
    case (Inr url)
    with 2 that show ?thesis by auto
  qed
  from 1 2 3 4 show ?thesis by blast
qed

theorem one_row_table_on_network_path_witness:
  "fst (SCOPEGREEN sample_rt (responding 200 (lit body_ranks_1_2))
          (only_item (lit ''steel'') (JNum (Fin 2))) empty_world) = Inr row_table
   \<and> (\<exists>row. row_table = JArr [JArr row])
   \<and> SCOPEGREEN sample_rt (responding 200 (lit body_ranks_1_2))
       (only_item [55357] JUndefined) empty_world = (Inl URIError, empty_world)"
proof -
  note t = one_row_table_on_network_path [OF sample_prepare_2 sample_miss,
      where sv = "responding 200 (lit body_ranks_1_2)"]
  note u = one_row_table_on_network_path [OF sample_lone_surrogate sample_miss,
      where sv = "responding 200 (lit body_ranks_1_2)"]
  have nm: "numMatches (sample_params (Fin 2)) = Fin 2"
    by (simp add: sample_params_def)
  have n: "fst (network_path sample_rt (responding 200 (lit body_ranks_1_2)) empty_world key
                  (Fin 2) url) = (Success, row_table)" for key url
    by (simp add: sample_network_2)
  have 1: "fst (SCOPEGREEN sample_rt (responding 200 (lit body_ranks_1_2))
          (only_item (lit ''steel'') (JNum (Fin 2))) empty_world) = Inr row_table"
    by (simp add: SCOPEGREEN_miss [OF sample_prepare_2 sample_miss]
          after_miss_built [OF sample_url_2] nm n)
  from t [THEN conjunct2, THEN conjunct2, THEN conjunct1, rule_format, OF 1]
  have 2: "\<exists>row. row_table = JArr [JArr row]" .
  from u [THEN conjunct2, THEN conjunct2, THEN conjunct2, rule_format,
      OF sample_lone_surrogate_url]
  have 3: "SCOPEGREEN sample_rt (responding 200 (lit body_ranks_1_2))
       (only_item [55357] JUndefined) empty_world = (Inl URIError, empty_world)"
    by simp
  from 1 2 3 show ?thesis by blast
qed

end
